theory Spec2Isabelle
  imports Complex_Main
begin

text \<open>
  The indicator computations of the trading dashboards tradingbot.py, app10.py and
  app11.py, as functions on lists, and the properties their specification states about
  them. (app12.py only compares numbers typed into a form with fixed thresholds.)
\<close>

section \<open>Floating-point values of a pandas Series\<close>

text \<open>
  The scripts compute on pandas Series of float64. A value is a finite number, one of the
  two infinities, or NaN (pandas' "undefined"). Finite values are modelled as exact reals:
  rounding is not modelled, except for the ADX, which is also given with float64
  rounding; neither is the sign of zero (a zero denominator is taken as the positive zero
  \<open>0.0\<close>; a negative zero would flip the sign of an infinite quotient).
  The special values follow IEEE 754 as numpy applies it to Series arithmetic: nothing
  raises, \<open>x / 0\<close> is an infinity for \<open>x \<noteq> 0\<close> and NaN for \<open>x = 0\<close>, and NaN propagates.
\<close>

datatype fval = Fin real | PInf | NInf | NaN

type_synonym series = "fval list"

fun is_fin :: "fval \<Rightarrow> bool" where
  "is_fin (Fin x) = True"
| "is_fin PInf = False"
| "is_fin NInf = False"
| "is_fin NaN = False"

fun fneg :: "fval \<Rightarrow> fval" where
  "fneg (Fin x) = Fin (- x)"
| "fneg PInf = NInf"
| "fneg NInf = PInf"
| "fneg NaN = NaN"

fun fabs :: "fval \<Rightarrow> fval" where
  "fabs (Fin x) = Fin \<bar>x\<bar>"
| "fabs PInf = PInf"
| "fabs NInf = PInf"
| "fabs NaN = NaN"

fun fadd :: "fval \<Rightarrow> fval \<Rightarrow> fval" where
  "fadd (Fin x) (Fin y) = Fin (x + y)"
| "fadd (Fin x) PInf = PInf"
| "fadd (Fin x) NInf = NInf"
| "fadd PInf (Fin y) = PInf"
| "fadd PInf PInf = PInf"
| "fadd PInf NInf = NaN"
| "fadd NInf (Fin y) = NInf"
| "fadd NInf NInf = NInf"
| "fadd NInf PInf = NaN"
| "fadd NaN y = NaN"
| "fadd x NaN = NaN"

definition fsub :: "fval \<Rightarrow> fval \<Rightarrow> fval" where
  "fsub x y = fadd x (fneg y)"

text \<open>The infinity with the sign of a nonzero real.\<close>

definition inf_of_sign :: "real \<Rightarrow> fval" where
  "inf_of_sign s = (if 0 < s then PInf else NInf)"

fun fmul :: "fval \<Rightarrow> fval \<Rightarrow> fval" where
  "fmul (Fin x) (Fin y) = Fin (x * y)"
| "fmul (Fin x) PInf = (if x = 0 then NaN else inf_of_sign x)"
| "fmul (Fin x) NInf = (if x = 0 then NaN else inf_of_sign (- x))"
| "fmul PInf (Fin y) = (if y = 0 then NaN else inf_of_sign y)"
| "fmul NInf (Fin y) = (if y = 0 then NaN else inf_of_sign (- y))"
| "fmul PInf PInf = PInf"
| "fmul PInf NInf = NInf"
| "fmul NInf PInf = NInf"
| "fmul NInf NInf = PInf"
| "fmul NaN y = NaN"
| "fmul x NaN = NaN"

fun fdiv :: "fval \<Rightarrow> fval \<Rightarrow> fval" where
  "fdiv (Fin x) (Fin y) =
     (if y = 0 then (if x = 0 then NaN else inf_of_sign x) else Fin (x / y))"
| "fdiv (Fin x) PInf = Fin 0"
| "fdiv (Fin x) NInf = Fin 0"
| "fdiv PInf (Fin y) = (if y < 0 then NInf else PInf)"
| "fdiv NInf (Fin y) = (if y < 0 then PInf else NInf)"
| "fdiv PInf PInf = NaN"
| "fdiv PInf NInf = NaN"
| "fdiv NInf PInf = NaN"
| "fdiv NInf NInf = NaN"
| "fdiv NaN y = NaN"
| "fdiv x NaN = NaN"

text \<open>Python's \<open>x > y\<close> on floats: false as soon as one side is NaN.\<close>

fun fgt :: "fval \<Rightarrow> fval \<Rightarrow> bool" where
  "fgt (Fin x) (Fin y) = (x > y)"
| "fgt PInf (Fin y) = True"
| "fgt PInf NInf = True"
| "fgt (Fin x) NInf = True"
| "fgt NaN y = False"
| "fgt x NaN = False"
| "fgt x PInf = False"
| "fgt NInf y = False"

text \<open>\<open>in_range lo hi v\<close>: the value is undefined (NaN) or a finite number of \<open>[lo, hi]\<close>.\<close>

fun in_range :: "real \<Rightarrow> real \<Rightarrow> fval \<Rightarrow> bool" where
  "in_range lo hi (Fin x) = (lo \<le> x \<and> x \<le> hi)"
| "in_range lo hi NaN = True"
| "in_range lo hi PInf = False"
| "in_range lo hi NInf = False"


section \<open>Bars and tables\<close>

text \<open>
  One row of the downloaded table: the columns Open, High, Low, Close, Volume, each a
  finite number (a table without missing values). A table (DataFrame) is the list of its
  rows in index order, so all columns have the length of the table.
\<close>

record bar =
  opn :: real
  high :: real
  low :: real
  close :: real
  volume :: real

type_synonym dataframe = "bar list"

text \<open>\<open>df["Close"]\<close> as a Series.\<close>

definition column :: "(bar \<Rightarrow> real) \<Rightarrow> dataframe \<Rightarrow> series" where
  "column f df = map (\<lambda>b. Fin (f b)) df"


section \<open>The pandas operations the scripts call\<close>

subsection \<open>Rolling windows\<close>

text \<open>
  \<open>s.rolling(w)\<close> with the default \<open>min_periods = w\<close>: the result at index \<open>i\<close> is
  computed from the \<open>w\<close> values \<open>s[i-w+1 .. i]\<close> when there are \<open>w\<close> of them and all are
  observations, and is NaN otherwise. pandas turns infinities into NaN before it
  aggregates, so an observation is a finite value.
\<close>

definition window_at :: "nat \<Rightarrow> 'a list \<Rightarrow> nat \<Rightarrow> 'a list" where
  "window_at w xs i = take w (drop (i + 1 - w) xs)"

fun fin_values :: "fval list \<Rightarrow> real list option" where
  "fin_values [] = Some []"
| "fin_values (Fin x # vs) = map_option ((#) x) (fin_values vs)"
| "fin_values (PInf # vs) = None"
| "fin_values (NInf # vs) = None"
| "fin_values (NaN # vs) = None"

definition rolling :: "nat \<Rightarrow> (real list \<Rightarrow> fval) \<Rightarrow> series \<Rightarrow> series" where
  "rolling w agg xs =
     map (\<lambda>i. if i + 1 < w then NaN
              else (case fin_values (window_at w xs i) of
                      None \<Rightarrow> NaN
                    | Some vs \<Rightarrow> agg vs))
         [0..<length xs]"

text \<open>\<open>.sum()\<close>, \<open>.mean()\<close> and \<open>.std()\<close> (sample standard deviation, \<open>ddof = 1\<close>) of a window.\<close>

definition agg_sum :: "real list \<Rightarrow> fval" where
  "agg_sum vs = Fin (sum_list vs)"

definition mean :: "real list \<Rightarrow> real" where
  "mean vs = sum_list vs / real (length vs)"

definition agg_mean :: "real list \<Rightarrow> fval" where
  "agg_mean vs = (if vs = [] then NaN else Fin (mean vs))"

definition agg_std :: "real list \<Rightarrow> fval" where
  "agg_std vs =
     (if length vs < 2 then NaN
      else Fin (sqrt (sum_list (map (\<lambda>v. (v - mean vs)\<^sup>2) vs) / (real (length vs) - 1))))"

subsection \<open>Exponentially weighted means\<close>

text \<open>
  \<open>s.ewm(span=n, adjust=...).mean()\<close> on a Series without NaN (the Close and Volume columns
  and the MACD line), with \<open>\<alpha> = 2/(n+1)\<close>; pandas rejects \<open>n < 1\<close>. With
  \<open>adjust=False\<close> the mean is seeded with the first value and updated recursively. With
  pandas' default \<open>adjust=True\<close> the mean at \<open>t\<close> is the weighted average of
  \<open>x\<^sub>t, x\<^sub>t\<^sub>-\<^sub>1, ..., x\<^sub>0\<close> with weights \<open>1, (1-\<alpha>), ..., (1-\<alpha>)\<^sup>t\<close>; the loop
  carries the weighted sum and the sum of the weights.
\<close>

definition alpha_of_span :: "nat \<Rightarrow> real" where
  "alpha_of_span n = 2 / (real n + 1)"

fun ewm_rec :: "real \<Rightarrow> real \<Rightarrow> real list \<Rightarrow> real list" where
  "ewm_rec a prev [] = []"
| "ewm_rec a prev (x # xs) = (a * x + (1 - a) * prev) # ewm_rec a (a * x + (1 - a) * prev) xs"

fun ewm_adj :: "real \<Rightarrow> real \<Rightarrow> real \<Rightarrow> real list \<Rightarrow> real list" where
  "ewm_adj a num den [] = []"
| "ewm_adj a num den (x # xs) =
     ((x + (1 - a) * num) / (1 + (1 - a) * den))
       # ewm_adj a (x + (1 - a) * num) (1 + (1 - a) * den) xs"

definition ewm_mean :: "bool \<Rightarrow> nat \<Rightarrow> real list \<Rightarrow> real list" where
  "ewm_mean adjust n xs =
     (if adjust then ewm_adj (alpha_of_span n) 0 0 xs
      else (case xs of [] \<Rightarrow> [] | x # rest \<Rightarrow> x # ewm_rec (alpha_of_span n) x rest))"

subsection \<open>Elementwise operations\<close>

text \<open>\<open>s.shift(n)\<close> for \<open>n \<ge> 0\<close>: the values move \<open>n\<close> places down, the index stays.\<close>

definition shift_series :: "nat \<Rightarrow> series \<Rightarrow> series" where
  "shift_series n xs = replicate (min n (length xs)) NaN @ take (length xs - n) xs"

text \<open>\<open>s.replace(0, np.nan)\<close>, at one position.\<close>

definition replace0 :: "fval \<Rightarrow> fval" where
  "replace0 v = (if v = Fin 0 then NaN else v)"

text \<open>\<open>s.diff()\<close>: NaN at the first position, then the difference with the previous value.\<close>

definition diff_series :: "real list \<Rightarrow> series" where
  "diff_series xs =
     (if xs = [] then [] else NaN # map2 (\<lambda>x p. Fin (x - p)) (tl xs) (butlast xs))"

text \<open>\<open>s.clip(lower=0)\<close> and \<open>s.clip(upper=0)\<close>, at one position; NaN stays NaN.\<close>

fun clip_lower0 :: "fval \<Rightarrow> fval" where
  "clip_lower0 (Fin x) = Fin (max x 0)"
| "clip_lower0 PInf = PInf"
| "clip_lower0 NInf = Fin 0"
| "clip_lower0 NaN = NaN"

fun clip_upper0 :: "fval \<Rightarrow> fval" where
  "clip_upper0 (Fin x) = Fin (min x 0)"
| "clip_upper0 PInf = Fin 0"
| "clip_upper0 NInf = NInf"
| "clip_upper0 NaN = NaN"

text \<open>\<open>df.tail(n)\<close> for \<open>n \<ge> 0\<close>, and \<open>.max()\<close>, \<open>.min()\<close> of a column (NaN when it is empty).\<close>

definition tail_rows :: "nat \<Rightarrow> 'a list \<Rightarrow> 'a list" where
  "tail_rows n df = drop (length df - n) df"

fun col_max :: "real list \<Rightarrow> fval" where
  "col_max [] = NaN"
| "col_max (x # xs) = Fin (fold max xs x)"

fun col_min :: "real list \<Rightarrow> fval" where
  "col_min [] = NaN"
| "col_min (x # xs) = Fin (fold min xs x)"


section \<open>The indicator functions of tradingbot.py\<close>

definition add_bollinger :: "dataframe \<Rightarrow> nat \<Rightarrow> real \<Rightarrow> series \<times> series \<times> series" where
  "add_bollinger df period num_std =
     (let ma = rolling period agg_mean (column close df);
          std = rolling period agg_std (column close df);
          upper = map2 fadd ma (map (\<lambda>s. fmul s (Fin num_std)) std);
          lower = map2 fsub ma (map (\<lambda>s. fmul s (Fin num_std)) std)
      in (upper, ma, lower))"

definition add_macd :: "dataframe \<Rightarrow> nat \<Rightarrow> nat \<Rightarrow> nat \<Rightarrow> series \<times> series \<times> series" where
  "add_macd df fast slow signal =
     (let ema_fast = ewm_mean False fast (map close df);
          ema_slow = ewm_mean False slow (map close df);
          macd = map2 (-) ema_fast ema_slow;
          macd_signal = ewm_mean False signal macd;
          macd_hist = map2 (-) macd macd_signal
      in (map Fin macd, map Fin macd_signal, map Fin macd_hist))"

text \<open>\<open>shift = int(period/2 + 1)\<close>: true division, then truncation of a positive number.\<close>

definition add_dpo :: "dataframe \<Rightarrow> nat \<Rightarrow> series" where
  "add_dpo df period =
     (let shift = nat \<lfloor>real period / 2 + 1\<rfloor>;
          sma = rolling period agg_mean (column close df)
      in map2 fsub (shift_series shift (column close df)) sma)"

definition add_cvo :: "dataframe \<Rightarrow> nat \<Rightarrow> nat \<Rightarrow> series \<times> series \<times> series" where
  "add_cvo df short long =
     (let vol_short = map Fin (ewm_mean False short (map volume df));
          vol_long = map Fin (ewm_mean False long (map volume df));
          cvo = map2 (\<lambda>s l. fdiv (fmul (Fin 100) (fsub s l)) (replace0 l)) vol_short vol_long
      in (cvo, vol_short, vol_long))"

text \<open>
  In \<open>add_adx\<close> the numpy arrays \<open>a[1:]\<close> and \<open>a[:-1]\<close> are \<open>tl a\<close> and \<open>butlast a\<close>;
  \<open>np.max(np.vstack([tr1,tr2,tr3]),axis=0)\<close> is the elementwise maximum of the three.
\<close>

definition add_adx :: "dataframe \<Rightarrow> nat \<Rightarrow> series \<times> series \<times> series" where
  "add_adx df period =
     (let highs = map high df; lows = map low df; closes = map close df in
      if length closes < 2 then
        (let n = length df in (replicate n NaN, replicate n NaN, replicate n NaN))
      else
        (let tr1 = map2 (-) (tl highs) (tl lows);
             tr2 = map2 (\<lambda>h c. \<bar>h - c\<bar>) (tl highs) (butlast closes);
             tr3 = map2 (\<lambda>l c. \<bar>l - c\<bar>) (tl lows) (butlast closes);
             tr = map2 max tr1 (map2 max tr2 tr3);
             up = map2 (-) (tl highs) (butlast highs);
             down = map2 (-) (butlast lows) (tl lows);
             plus_dm = map2 (\<lambda>u d. if u > d \<and> u > 0 then u else 0) up down;
             minus_dm = map2 (\<lambda>u d. if d > u \<and> d > 0 then d else 0) up down;
             tr_smooth = rolling period agg_sum (map Fin tr);
             plus_smooth = rolling period agg_sum (map Fin plus_dm);
             minus_smooth = rolling period agg_sum (map Fin minus_dm);
             plus_di = map2 (\<lambda>p t. fmul (Fin 100) (fdiv p (replace0 t))) plus_smooth tr_smooth;
             minus_di = map2 (\<lambda>m t. fmul (Fin 100) (fdiv m (replace0 t))) minus_smooth tr_smooth;
             dx = map2 (\<lambda>p m. fdiv (fmul (Fin 100) (fabs (fsub p m))) (replace0 (fadd p m)))
                       plus_di minus_di;
             adx = rolling period agg_mean dx;
             pad_len = length df - length adx
         in (replicate pad_len NaN @ plus_di,
             replicate pad_len NaN @ minus_di,
             replicate pad_len NaN @ adx)))"

text \<open>The dictionary is kept as the list of its items, in the order of the literal.\<close>

definition fibonacci_levels :: "dataframe \<Rightarrow> nat \<Rightarrow> (string \<times> fval) list" where
  "fibonacci_levels df lookback =
     (if length df < 2 then []
      else
        (let window = tail_rows lookback df;
             hi = col_max (map high window);
             lo = col_min (map low window);
             diff = fsub hi lo
         in [(''Swing High'', hi),
             (''Swing Low'', lo),
             (''0.0'', hi),
             (''0.236'', fsub hi (fmul (Fin 0.236) diff)),
             (''0.382'', fsub hi (fmul (Fin 0.382) diff)),
             (''0.5'', fsub hi (fmul (Fin 0.5) diff)),
             (''0.618'', fsub hi (fmul (Fin 0.618) diff)),
             (''0.786'', fsub hi (fmul (Fin 0.786) diff)),
             (''1.0'', lo)]))"

subsection \<open>The script\<close>

text \<open>
  The script stops with an error message when the download is empty
  (\<open>if df.empty: st.error(...); st.stop()\<close>); otherwise it computes every indicator with
  the parameters of the sidebar. The sidebar bounds the parameters from below: the spans
  and the Bollinger period by 1, the DPO and ADX periods and the Fibonacci lookback by 2,
  the Bollinger multiplier by 0.1.
\<close>

datatype stop = NoData | NotEnoughData

record params =
  p_macd_fast :: nat
  p_macd_slow :: nat
  p_macd_signal :: nat
  p_bb_period :: nat
  p_bb_std :: real
  p_dpo_period :: nat
  p_adx_period :: nat
  p_cvo_short :: nat
  p_cvo_long :: nat
  p_fib_lookback :: nat

text \<open>The values the sidebar starts with.\<close>

definition default_params :: params where
  "default_params =
     \<lparr>p_macd_fast = 12, p_macd_slow = 26, p_macd_signal = 9,
      p_bb_period = 20, p_bb_std = 2,
      p_dpo_period = 20, p_adx_period = 14,
      p_cvo_short = 14, p_cvo_long = 28,
      p_fib_lookback = 50\<rparr>"

record indicators =
  t_bb_upper :: series
  t_bb_mid :: series
  t_bb_lower :: series
  t_macd :: series
  t_macd_signal :: series
  t_macd_hist :: series
  t_dpo :: series
  t_cvo :: series
  t_vol_ema_short :: series
  t_vol_ema_long :: series
  t_plus_di :: series
  t_minus_di :: series
  t_adx :: series
  t_fib_levels :: "(string \<times> fval) list"

definition tradingbot :: "params \<Rightarrow> dataframe \<Rightarrow> stop + indicators" where
  "tradingbot p df =
     (if df = [] then Inl NoData
      else
        (let (bb_upper, bb_mid, bb_lower) = add_bollinger df (p_bb_period p) (p_bb_std p);
             (macd, macd_signal, macd_hist) =
                add_macd df (p_macd_fast p) (p_macd_slow p) (p_macd_signal p);
             dpo = add_dpo df (p_dpo_period p);
             (cvo, vol_ema_short, vol_ema_long) = add_cvo df (p_cvo_short p) (p_cvo_long p);
             (plus_di, minus_di, adx) = add_adx df (p_adx_period p);
             fib_levels = fibonacci_levels df (p_fib_lookback p)
         in Inr \<lparr>t_bb_upper = bb_upper, t_bb_mid = bb_mid, t_bb_lower = bb_lower,
                 t_macd = macd, t_macd_signal = macd_signal, t_macd_hist = macd_hist,
                 t_dpo = dpo,
                 t_cvo = cvo, t_vol_ema_short = vol_ema_short, t_vol_ema_long = vol_ema_long,
                 t_plus_di = plus_di, t_minus_di = minus_di, t_adx = adx,
                 t_fib_levels = fib_levels\<rparr>))"


section \<open>The indicators of app10.py\<close>

text \<open>
  app10.py computes its columns inline. The EMAs use \<open>ewm(span=n)\<close> with pandas' default
  \<open>adjust=True\<close>; the Bollinger bands use a window of 20 and two standard deviations; the
  RSI uses rolling means over 14 bars. The window of the RSI is a parameter here, and the
  script's column is \<open>rsi_series 14\<close>.
\<close>

definition app10_ema :: "nat \<Rightarrow> dataframe \<Rightarrow> series" where
  "app10_ema n df = map Fin (ewm_mean True n (map close df))"

definition app10_bollinger :: "dataframe \<Rightarrow> series \<times> series \<times> series" where
  "app10_bollinger df =
     (let bb_mid = rolling 20 agg_mean (column close df);
          bb_std = rolling 20 agg_std (column close df)
      in (bb_mid,
          map2 fadd bb_mid (map (\<lambda>s. fmul (Fin 2) s) bb_std),
          map2 fsub bb_mid (map (\<lambda>s. fmul (Fin 2) s) bb_std)))"

definition rsi_series :: "nat \<Rightarrow> dataframe \<Rightarrow> series" where
  "rsi_series w df =
     (let delta = diff_series (map close df);
          gain = map clip_lower0 delta;
          loss = map (\<lambda>d. fneg (clip_upper0 d)) delta;
          rs = map2 fdiv (rolling w agg_mean gain) (rolling w agg_mean loss)
      in map (\<lambda>r. fsub (Fin 100) (fdiv (Fin 100) (fadd (Fin 1) r))) rs)"

definition app10_macd :: "dataframe \<Rightarrow> series \<times> series" where
  "app10_macd df =
     (let ema12 = ewm_mean True 12 (map close df);
          ema26 = ewm_mean True 26 (map close df);
          macd = map2 (-) ema12 ema26
      in (map Fin macd, map Fin (ewm_mean True 9 macd)))"

record app10_table =
  a_ema9 :: series
  a_ema21 :: series
  a_ema50 :: series
  a_bb_mid :: series
  a_bb_up :: series
  a_bb_low :: series
  a_rsi :: series
  a_macd :: series
  a_signal :: series

text \<open>
  Before it computes anything the script stops with an error message when fewer than 50
  bars were loaded (\<open>if df.empty or len(df) < 50: st.error(...); st.stop()\<close>).
\<close>

definition app10 :: "dataframe \<Rightarrow> stop + app10_table" where
  "app10 df =
     (if df = [] \<or> length df < 50 then Inl NotEnoughData
      else
        (let (bb_mid, bb_up, bb_low) = app10_bollinger df;
             (macd, signal) = app10_macd df
         in Inr \<lparr>a_ema9 = app10_ema 9 df, a_ema21 = app10_ema 21 df, a_ema50 = app10_ema 50 df,
                 a_bb_mid = bb_mid, a_bb_up = bb_up, a_bb_low = bb_low,
                 a_rsi = rsi_series 14 df,
                 a_macd = macd, a_signal = signal\<rparr>))"


section \<open>The Bollinger band width of app11.py\<close>

text \<open>
  \<open>df["BB60_width"] = (bb60_h - bb60_l) / df["Close"]\<close>. The two bands come from the
  \<open>ta\<close> package (\<open>BollingerBands(series, window=60)\<close>), which is not part of the
  repository: they are parameters here, Series over the index of the table.
\<close>

definition bb_width :: "series \<Rightarrow> series \<Rightarrow> dataframe \<Rightarrow> series" where
  "bb_width bb60_h bb60_l df = map2 fdiv (map2 fsub bb60_h bb60_l) (column close df)"

text \<open>
  Before it computes any indicator the script stops with an error message when fewer than
  \<open>MIN_BARS\<close> bars were loaded
  (\<open>if df is None or df.empty or len(df) < MIN_BARS: st.error(...); st.stop()\<close>).
  \<open>bands\<close> stands for \<open>safe_bb(df["Close"], 60)\<close>; the other columns of the script (RSI,
  Williams %R, DMI, MA8) are computed by the \<open>ta\<close> package and are left out.
\<close>

definition MIN_BARS :: nat where
  "MIN_BARS = 160"

definition app11 :: "(dataframe \<Rightarrow> series \<times> series) \<Rightarrow> dataframe \<Rightarrow> stop + series" where
  "app11 bands df =
     (if df = [] \<or> length df < MIN_BARS then Inl NotEnoughData
      else (let (bb60_h, bb60_l) = bands df in Inr (bb_width bb60_h bb60_l df)))"


section \<open>The signal layer of app10.py\<close>

text \<open>
  The scalars read from the last row of the table (\<open>latest = df.iloc[-1]\<close> and
  \<open>avg_volume\<close>), each a Python float.
\<close>

record latest_row =
  l_close :: fval
  l_ema9 :: fval
  l_ema21 :: fval
  l_ema50 :: fval
  l_rsi :: fval
  l_macd :: fval
  l_signal :: fval
  l_volume :: fval
  l_avg_volume :: fval
  l_bb_mid_val :: fval

text \<open>The six conditions, in the order of the six \<open>if ...: bullish += 1\<close> lines.\<close>

definition checks_of :: "latest_row \<Rightarrow> bool list" where
  "checks_of r =
     [fgt (l_close r) (l_ema21 r) \<and> fgt (l_ema21 r) (l_ema50 r),
      fgt (l_close r) (l_ema9 r),
      fgt (l_rsi r) (Fin 55),
      fgt (l_macd r) (l_signal r),
      fgt (l_volume r) (l_avg_volume r),
      fgt (l_close r) (l_bb_mid_val r)]"

definition checks :: nat where
  "checks = 6"

text \<open>\<open>bullish = 0\<close>, then one increment for each condition that holds.\<close>

definition bullish :: "latest_row \<Rightarrow> nat" where
  "bullish r = fold (\<lambda>c b. if c then b + 1 else b) (checks_of r) 0"

text \<open>
  \<open>confidence = int((bullish / checks) * 100)\<close>: true division, then truncation, which on
  a non-negative number is the floor. (The quotients that are integers, 0, 50 and 100, are
  exact in float64 and the others are a third away from an integer, so rounding does not
  change the truncated value.)
\<close>

definition confidence_of :: "nat \<Rightarrow> int" where
  "confidence_of b = \<lfloor>(real b / real checks) * 100\<rfloor>"

definition confidence :: "latest_row \<Rightarrow> int" where
  "confidence r = confidence_of (bullish r)"

datatype verdict = BUY | SELL | HOLD

definition final_verdict :: "int \<Rightarrow> verdict" where
  "final_verdict c = (if c \<ge> 70 then BUY else if c \<le> 35 then SELL else HOLD)"


section \<open>The ADX in float64 arithmetic\<close>

text \<open>
  numpy and pandas round the result of every arithmetic operation to float64. \<open>round64\<close>
  is that rounding: to the nearest number with 53 significant bits, ties to the even one.
  The exponent is unbounded (no overflow, underflow or subnormal numbers, which prices and
  their sums and ratios do not reach).
\<close>

definition round_even :: "real \<Rightarrow> int" where
  "round_even y =
     (let f = \<lfloor>y\<rfloor> in
      if y - of_int f < 1 / 2 then f
      else if 1 / 2 < y - of_int f then f + 1
      else if even f then f else f + 1)"

definition ulp64 :: "real \<Rightarrow> real" where
  "ulp64 x = 2 powr (of_int \<lfloor>log 2 x\<rfloor> - 52)"

definition round64_pos :: "real \<Rightarrow> real" where
  "round64_pos x = ulp64 x * of_int (round_even (x / ulp64 x))"

definition round64 :: "real \<Rightarrow> real" where
  "round64 x = (if x = 0 then 0 else if x < 0 then - round64_pos (- x) else round64_pos x)"

text \<open>
  \<open>add_adx_rounded rnd\<close> is \<open>add_adx\<close> with \<open>rnd\<close> applied to the result of every
  subtraction, addition, multiplication and division (comparisons, \<open>abs\<close> and \<open>max\<close> are
  exact). A rolling sum adds the values of its window one by one, and a rolling mean
  divides that sum by the number of values. With the identity for \<open>rnd\<close> it is \<open>add_adx\<close>
  (lemma \<open>add_adx_rounded_id\<close>); with \<open>round64\<close> it is what the script computes.
\<close>

fun fround :: "(real \<Rightarrow> real) \<Rightarrow> fval \<Rightarrow> fval" where
  "fround rnd (Fin x) = Fin (rnd x)"
| "fround rnd PInf = PInf"
| "fround rnd NInf = NInf"
| "fround rnd NaN = NaN"

definition agg_sum_rounded :: "(real \<Rightarrow> real) \<Rightarrow> real list \<Rightarrow> fval" where
  "agg_sum_rounded rnd vs = Fin (foldl (\<lambda>s v. rnd (s + v)) 0 vs)"

definition agg_mean_rounded :: "(real \<Rightarrow> real) \<Rightarrow> real list \<Rightarrow> fval" where
  "agg_mean_rounded rnd vs =
     (if vs = [] then NaN
      else Fin (rnd (foldl (\<lambda>s v. rnd (s + v)) 0 vs / real (length vs))))"

definition add_adx_rounded ::
  "(real \<Rightarrow> real) \<Rightarrow> dataframe \<Rightarrow> nat \<Rightarrow> series \<times> series \<times> series" where
  "add_adx_rounded rnd df period =
     (let highs = map high df; lows = map low df; closes = map close df in
      if length closes < 2 then
        (let n = length df in (replicate n NaN, replicate n NaN, replicate n NaN))
      else
        (let tr1 = map2 (\<lambda>h l. rnd (h - l)) (tl highs) (tl lows);
             tr2 = map2 (\<lambda>h c. \<bar>rnd (h - c)\<bar>) (tl highs) (butlast closes);
             tr3 = map2 (\<lambda>l c. \<bar>rnd (l - c)\<bar>) (tl lows) (butlast closes);
             tr = map2 max tr1 (map2 max tr2 tr3);
             up = map2 (\<lambda>h p. rnd (h - p)) (tl highs) (butlast highs);
             down = map2 (\<lambda>p l. rnd (p - l)) (butlast lows) (tl lows);
             plus_dm = map2 (\<lambda>u d. if u > d \<and> u > 0 then u else 0) up down;
             minus_dm = map2 (\<lambda>u d. if d > u \<and> d > 0 then d else 0) up down;
             tr_smooth = rolling period (agg_sum_rounded rnd) (map Fin tr);
             plus_smooth = rolling period (agg_sum_rounded rnd) (map Fin plus_dm);
             minus_smooth = rolling period (agg_sum_rounded rnd) (map Fin minus_dm);
             plus_di = map2 (\<lambda>p t. fround rnd (fmul (Fin 100) (fround rnd (fdiv p (replace0 t)))))
                            plus_smooth tr_smooth;
             minus_di = map2 (\<lambda>m t. fround rnd (fmul (Fin 100) (fround rnd (fdiv m (replace0 t)))))
                             minus_smooth tr_smooth;
             dx = map2 (\<lambda>p m. fround rnd
                                (fdiv (fround rnd (fmul (Fin 100) (fabs (fround rnd (fsub p m)))))
                                      (replace0 (fround rnd (fadd p m)))))
                       plus_di minus_di;
             adx = rolling period (agg_mean_rounded rnd) dx;
             pad_len = length df - length adx
         in (replicate pad_len NaN @ plus_di,
             replicate pad_len NaN @ minus_di,
             replicate pad_len NaN @ adx)))"

definition add_adx_f64 :: "dataframe \<Rightarrow> nat \<Rightarrow> series \<times> series \<times> series" where
  "add_adx_f64 = add_adx_rounded round64"


section \<open>Auxiliary definitions\<close>

text \<open>
  The intermediate arrays of \<open>add_adx\<close> on a table of at least two bars, named so that the
  proofs can refer to them: the true range, the two directional movements, a directional
  indicator from a movement, and DX from the two indicators.
\<close>

definition true_range :: "dataframe \<Rightarrow> real list" where
  "true_range df =
     map2 max (map2 (-) (tl (map high df)) (tl (map low df)))
       (map2 max (map2 (\<lambda>h c. \<bar>h - c\<bar>) (tl (map high df)) (butlast (map close df)))
                 (map2 (\<lambda>l c. \<bar>l - c\<bar>) (tl (map low df)) (butlast (map close df))))"

definition plus_dm_of :: "dataframe \<Rightarrow> real list" where
  "plus_dm_of df =
     map2 (\<lambda>u d. if u > d \<and> u > 0 then u else 0)
       (map2 (-) (tl (map high df)) (butlast (map high df)))
       (map2 (-) (butlast (map low df)) (tl (map low df)))"

definition minus_dm_of :: "dataframe \<Rightarrow> real list" where
  "minus_dm_of df =
     map2 (\<lambda>u d. if d > u \<and> d > 0 then d else 0)
       (map2 (-) (tl (map high df)) (butlast (map high df)))
       (map2 (-) (butlast (map low df)) (tl (map low df)))"

definition di_of :: "nat \<Rightarrow> real list \<Rightarrow> real list \<Rightarrow> series" where
  "di_of period dm tr =
     map2 (\<lambda>p t. fmul (Fin 100) (fdiv p (replace0 t)))
       (rolling period agg_sum (map Fin dm)) (rolling period agg_sum (map Fin tr))"

definition dx_of :: "series \<Rightarrow> series \<Rightarrow> series" where
  "dx_of plus_di minus_di =
     map2 (\<lambda>p m. fdiv (fmul (Fin 100) (fabs (fsub p m))) (replace0 (fadd p m))) plus_di minus_di"

text \<open>The same intermediate arrays with rounding.\<close>

definition true_range_rounded :: "(real \<Rightarrow> real) \<Rightarrow> dataframe \<Rightarrow> real list" where
  "true_range_rounded rnd df =
     map2 max (map2 (\<lambda>h l. rnd (h - l)) (tl (map high df)) (tl (map low df)))
       (map2 max (map2 (\<lambda>h c. \<bar>rnd (h - c)\<bar>) (tl (map high df)) (butlast (map close df)))
                 (map2 (\<lambda>l c. \<bar>rnd (l - c)\<bar>) (tl (map low df)) (butlast (map close df))))"

definition plus_dm_rounded :: "(real \<Rightarrow> real) \<Rightarrow> dataframe \<Rightarrow> real list" where
  "plus_dm_rounded rnd df =
     map2 (\<lambda>u d. if u > d \<and> u > 0 then u else 0)
       (map2 (\<lambda>h p. rnd (h - p)) (tl (map high df)) (butlast (map high df)))
       (map2 (\<lambda>p l. rnd (p - l)) (butlast (map low df)) (tl (map low df)))"

definition minus_dm_rounded :: "(real \<Rightarrow> real) \<Rightarrow> dataframe \<Rightarrow> real list" where
  "minus_dm_rounded rnd df =
     map2 (\<lambda>u d. if d > u \<and> d > 0 then d else 0)
       (map2 (\<lambda>h p. rnd (h - p)) (tl (map high df)) (butlast (map high df)))
       (map2 (\<lambda>p l. rnd (p - l)) (butlast (map low df)) (tl (map low df)))"

definition di_rounded :: "(real \<Rightarrow> real) \<Rightarrow> nat \<Rightarrow> real list \<Rightarrow> real list \<Rightarrow> series" where
  "di_rounded rnd period dm tr =
     map2 (\<lambda>p t. fround rnd (fmul (Fin 100) (fround rnd (fdiv p (replace0 t)))))
       (rolling period (agg_sum_rounded rnd) (map Fin dm))
       (rolling period (agg_sum_rounded rnd) (map Fin tr))"

definition dx_rounded :: "(real \<Rightarrow> real) \<Rightarrow> series \<Rightarrow> series \<Rightarrow> series" where
  "dx_rounded rnd plus_di minus_di =
     map2 (\<lambda>p m. fround rnd
                    (fdiv (fround rnd (fmul (Fin 100) (fabs (fround rnd (fsub p m)))))
                          (replace0 (fround rnd (fadd p m)))))
          plus_di minus_di"

text \<open>
  The two rolling means of \<open>rsi_series\<close>, and the differences \<open>close[i+1] - close[i]\<close>,
  which are the entries of \<open>diff()\<close> after the first.
\<close>

definition avg_gain :: "nat \<Rightarrow> dataframe \<Rightarrow> series" where
  "avg_gain w df = rolling w agg_mean (map clip_lower0 (diff_series (map close df)))"

definition avg_loss :: "nat \<Rightarrow> dataframe \<Rightarrow> series" where
  "avg_loss w df =
     rolling w agg_mean (map (\<lambda>d. fneg (clip_upper0 d)) (diff_series (map close df)))"

definition deltas :: "real list \<Rightarrow> real list" where
  "deltas xs = map2 (\<lambda>x p. x - p) (tl xs) (butlast xs)"

text \<open>A bar whose close and open lie between its low and its high.\<close>

definition ordered_bar :: "bar \<Rightarrow> bool" where
  "ordered_bar b = (low b \<le> close b \<and> close b \<le> high b \<and> low b \<le> opn b \<and> opn b \<le> high b)"

text \<open>
  Concrete inputs. A bar is given by its high, low, close and volume (no indicator reads
  the open, which is set to the close). The tables are: five bars with varied ranges;
  three bars with closes 99, 100, 101; fifty bars whose close is 0 and then 9; fifty bars
  with a constant close of 100; 160 bars whose last close is 0; and four bars on which
  the rounded ADX leaves \<open>[0, 100]\<close>. \<open>nan_bands\<close> are the Bollinger bands of a table
  shorter than their window. The last row
  \<open>five_of_six\<close> satisfies every check of the signal layer but the one on the RSI.
\<close>

definition bar_of :: "real \<Rightarrow> real \<Rightarrow> real \<Rightarrow> real \<Rightarrow> bar" where
  "bar_of h l c v = \<lparr>opn = c, high = h, low = l, close = c, volume = v\<rparr>"

definition example_bars :: dataframe where
  "example_bars =
     [bar_of 110 90 100 1000, bar_of 100 95 98 2000, bar_of 105 97 104 500,
      bar_of 110 90 100 1000, bar_of 100 95 98 2000]"

definition rising_bars :: dataframe where
  "rising_bars = [bar_of 100 98 99 10, bar_of 101 99 100 10, bar_of 102 100 101 10]"

definition step_bars :: dataframe where
  "step_bars = bar_of 0 0 0 0 # bar_of 9 9 9 0 # replicate 48 (bar_of 9 9 9 0)"

definition flat_bars :: dataframe where
  "flat_bars = replicate 50 (bar_of 100 100 100 1000)"

definition zero_close_bars :: dataframe where
  "zero_close_bars = replicate 159 (bar_of 2 2 2 1) @ [bar_of 2 0 0 1]"

definition overshoot_bars :: dataframe where
  "overshoot_bars =
     [bar_of 100 100 100 1000, bar_of 102 87 90 1000, bar_of 90 90 90 1000, bar_of 92 77 80 1000]"

definition nan_bands :: "dataframe \<Rightarrow> series \<times> series" where
  "nan_bands df = (replicate (length df) NaN, replicate (length df) NaN)"

definition five_of_six :: latest_row where
  "five_of_six =
     \<lparr>l_close = Fin 105, l_ema9 = Fin 100, l_ema21 = Fin 99, l_ema50 = Fin 98,
      l_rsi = Fin 50, l_macd = Fin 1, l_signal = Fin 0, l_volume = Fin 2,
      l_avg_volume = Fin 1, l_bb_mid_val = Fin 100\<rparr>"


section \<open>Basic facts about the operations\<close>

lemma fadd_NaN_right [simp]: "fadd x NaN = NaN"
  by (cases x) simp_all

lemma fmul_NaN_right [simp]: "fmul x NaN = NaN"
  by (cases x) simp_all

lemma fdiv_NaN_right [simp]: "fdiv x NaN = NaN"
  by (cases x) simp_all

lemma fsub_NaN [simp]: "fsub x NaN = NaN" "fsub NaN y = NaN"
  by (simp_all add: fsub_def)

lemma fsub_Fin [simp]: "fsub (Fin x) (Fin y) = Fin (x - y)"
  by (simp add: fsub_def)

lemma length_rolling [simp]: "length (rolling w agg xs) = length xs"
  by (simp add: rolling_def)

lemma rolling_nth:
  "i < length xs \<Longrightarrow>
   rolling w agg xs ! i =
     (if i + 1 < w then NaN
      else (case fin_values (window_at w xs i) of None \<Rightarrow> NaN | Some vs \<Rightarrow> agg vs))"
  by (simp add: rolling_def)

lemma rolling_warmup: "i < length xs \<Longrightarrow> i + 1 < w \<Longrightarrow> rolling w agg xs ! i = NaN"
  by (simp add: rolling_nth)

lemma length_ewm_rec [simp]: "length (ewm_rec a prev xs) = length xs"
  by (induction xs arbitrary: prev) simp_all

lemma length_ewm_adj [simp]: "length (ewm_adj a num den xs) = length xs"
  by (induction xs arbitrary: num den) simp_all

lemma length_ewm_mean [simp]: "length (ewm_mean adjust n xs) = length xs"
  by (simp add: ewm_mean_def split: list.splits)

lemma length_shift_series [simp]: "length (shift_series n xs) = length xs"
  by (simp add: shift_series_def)

lemma shift_series_nth:
  "i < length xs \<Longrightarrow> shift_series n xs ! i = (if i < n then NaN else xs ! (i - n))"
  by (auto simp: shift_series_def nth_append)

lemma length_column [simp]: "length (column f df) = length df"
  by (simp add: column_def)

lemma dpo_shift: "nat \<lfloor>real period / 2 + 1\<rfloor> = period div 2 + 1"
proof -
  have "\<lfloor>real period / 2 + 1\<rfloor> = \<lfloor>real period / 2\<rfloor> + 1"
    by linarith
  also have "\<lfloor>real period / 2\<rfloor> = int (period div 2)"
    by (simp add: floor_divide_of_nat_eq [of period 2, simplified])
  finally show ?thesis by simp
qed

lemma bollinger_lengths:
  "add_bollinger df period k = (upper, ma, lower) \<Longrightarrow>
   length upper = length df \<and> length ma = length df \<and> length lower = length df"
  by (auto simp: add_bollinger_def Let_def)

lemma bollinger_warmup:
  "add_bollinger df period k = (upper, ma, lower) \<Longrightarrow> i < length df \<Longrightarrow> i + 1 < period \<Longrightarrow>
   upper ! i = NaN \<and> ma ! i = NaN \<and> lower ! i = NaN"
  by (auto simp: add_bollinger_def Let_def rolling_warmup fsub_def)

lemma macd_lengths:
  "add_macd df fast slow signal = (macd, sig, hist) \<Longrightarrow>
   length macd = length df \<and> length sig = length df \<and> length hist = length df"
  by (auto simp: add_macd_def Let_def)

lemma dpo_length: "length (add_dpo df period) = length df"
  by (simp add: add_dpo_def Let_def)

lemma add_dpo_alt:
  "add_dpo df period =
     map2 fsub (shift_series (period div 2 + 1) (column close df))
               (rolling period agg_mean (column close df))"
  by (simp only: add_dpo_def Let_def dpo_shift)

lemma dpo_warmup:
  "i < length df \<Longrightarrow> i < period div 2 + 1 \<or> i + 1 < period \<Longrightarrow> add_dpo df period ! i = NaN"
  by (auto simp: add_dpo_alt shift_series_nth rolling_warmup)

lemma cvo_lengths:
  "add_cvo df short long = (cvo, vol_short, vol_long) \<Longrightarrow>
   length cvo = length df \<and> length vol_short = length df \<and> length vol_long = length df"
  by (auto simp: add_cvo_def Let_def)

lemma adx_lengths:
  "add_adx df period = (plus_di, minus_di, adx) \<Longrightarrow>
   length plus_di = length df \<and> length minus_di = length df \<and> length adx = length df"
  by (auto simp: add_adx_def Let_def split: if_splits)

lemma length_true_range [simp]: "length (true_range df) = length df - 1"
  by (simp add: true_range_def)

lemma length_plus_dm_of [simp]: "length (plus_dm_of df) = length df - 1"
  by (simp add: plus_dm_of_def)

lemma length_minus_dm_of [simp]: "length (minus_dm_of df) = length df - 1"
  by (simp add: minus_dm_of_def)

lemma length_di_of [simp]: "length (di_of period dm tr) = min (length dm) (length tr)"
  by (simp add: di_of_def)

lemma length_dx_of [simp]: "length (dx_of p m) = min (length p) (length m)"
  by (simp add: dx_of_def)

lemma add_adx_short:
  "length df < 2 \<Longrightarrow>
   add_adx df period =
     (replicate (length df) NaN, replicate (length df) NaN, replicate (length df) NaN)"
  by (simp add: add_adx_def Let_def)

lemma add_adx_long:
  assumes "2 \<le> length df"
  shows "add_adx df period =
     (NaN # di_of period (plus_dm_of df) (true_range df),
      NaN # di_of period (minus_dm_of df) (true_range df),
      NaN # rolling period agg_mean
              (dx_of (di_of period (plus_dm_of df) (true_range df))
                     (di_of period (minus_dm_of df) (true_range df))))"
proof -
  have pad: "length df - (length df - 1) = 1"
    using assms by simp
  have "\<not> length df < 2"
    using assms by simp
  then show ?thesis
    unfolding add_adx_def Let_def
    by (simp add: pad di_of_def dx_of_def true_range_def plus_dm_of_def minus_dm_of_def)
qed

lemma adx_warmup:
  assumes "add_adx df period = (plus_di, minus_di, adx)" "i < length df" "i = 0 \<or> i < period"
  shows "plus_di ! i = NaN \<and> minus_di ! i = NaN \<and> adx ! i = NaN"
proof (cases "length df < 2")
  case True
  with assms show ?thesis by (auto simp: add_adx_short)
next
  case False
  then have "2 \<le> length df" by simp
  from add_adx_long [OF this, of period] assms(1)
  have eqs: "plus_di = NaN # di_of period (plus_dm_of df) (true_range df)"
      "minus_di = NaN # di_of period (minus_dm_of df) (true_range df)"
      "adx = NaN # rolling period agg_mean
              (dx_of (di_of period (plus_dm_of df) (true_range df))
                     (di_of period (minus_dm_of df) (true_range df)))"
    by simp_all
  show ?thesis
  proof (cases i)
    case 0
    then show ?thesis by (simp add: eqs)
  next
    case (Suc j)
    with assms have j: "j < length df - 1" "j + 1 < period" by auto
    then show ?thesis
      by (simp add: eqs Suc di_of_def rolling_warmup)
  qed
qed


lemma window_at_map: "window_at w (map f xs) i = map f (window_at w xs i)"
  by (simp add: window_at_def take_map drop_map)

lemma fin_values_map_Fin [simp]: "fin_values (map Fin rs) = Some rs"
  by (induction rs) simp_all

lemma rolling_map_Fin_nth:
  "i < length rs \<Longrightarrow>
   rolling w agg (map Fin rs) ! i = (if i + 1 < w then NaN else agg (window_at w rs i))"
  by (simp add: rolling_nth window_at_map)

lemma column_alt: "column f df = map Fin (map f df)"
  by (simp add: column_def)

lemma column_nth [simp]: "i < length df \<Longrightarrow> column f df ! i = Fin (f (df ! i))"
  by (simp add: column_def)

lemma rolling_column_nth:
  assumes "i < length df"
  shows "rolling w agg (column f df) ! i =
     (if i + 1 < w then NaN else agg (map f (window_at w df i)))"
proof -
  have "i < length (map f df)"
    using assms by simp
  from rolling_map_Fin_nth [OF this, of w agg] show ?thesis
    by (simp only: column_alt window_at_map)
qed

lemma length_window_at: "w \<le> i + 1 \<Longrightarrow> i < length xs \<Longrightarrow> length (window_at w xs i) = w"
  by (simp add: window_at_def)

lemma bollinger_mid_value:
  "add_bollinger df period k = (upper, ma, lower) \<Longrightarrow> i < length df \<Longrightarrow> 1 \<le> period \<Longrightarrow>
   period \<le> i + 1 \<Longrightarrow> ma ! i = Fin (mean (map close (window_at period df i)))"
  by (auto simp: add_bollinger_def Let_def rolling_column_nth agg_mean_def window_at_def)

lemma dpo_value:
  assumes "i < length df" "1 \<le> period" "period \<le> i + 1" "period div 2 + 1 \<le> i"
  shows "add_dpo df period ! i =
     Fin (close (df ! (i - (period div 2 + 1))) - mean (map close (window_at period df i)))"
proof -
  have w: "window_at period df i \<noteq> []"
    using assms length_window_at [of period i df] by auto
  show ?thesis
    using assms w
    by (simp add: add_dpo_alt shift_series_nth rolling_column_nth agg_mean_def)
qed


section \<open>Alignment of the indicator series\<close>

text \<open>
  C1. Every series returned by \<open>add_bollinger\<close>, \<open>add_macd\<close>, \<open>add_dpo\<close>, \<open>add_cvo\<close> and
  \<open>add_adx\<close> has the length of the input table and is aligned with it by index: the
  warm-up positions at the front hold NaN (the first \<open>period - 1\<close> of the Bollinger series,
  the first \<open>max (period div 2 + 1) (period - 1)\<close> of the DPO), a defined value at index
  \<open>i\<close> is computed from the window that ends at bar \<open>i\<close>, and the ADX series, whose
  per-bar differences start at bar 1, are padded with a NaN at index 0 so that the value
  of the difference between bars \<open>i - 1\<close> and \<open>i\<close> sits at index \<open>i\<close>.
\<close>

theorem indicator_series_aligned:
  "(let (upper, ma, lower) = add_bollinger df bb_period num_std in
      length upper = length df \<and> length ma = length df \<and> length lower = length df
      \<and> (\<forall>i<length df. i + 1 < bb_period \<longrightarrow>
             upper ! i = NaN \<and> ma ! i = NaN \<and> lower ! i = NaN)
      \<and> (\<forall>i<length df. 1 \<le> bb_period \<and> bb_period \<le> i + 1 \<longrightarrow>
             ma ! i = Fin (mean (map close (window_at bb_period df i)))))
   \<and> (let (macd, macd_signal, macd_hist) = add_macd df fast slow signal in
      length macd = length df \<and> length macd_signal = length df
      \<and> length macd_hist = length df)
   \<and> (length (add_dpo df dpo_period) = length df
      \<and> (\<forall>i<length df. i < dpo_period div 2 + 1 \<or> i + 1 < dpo_period \<longrightarrow>
             add_dpo df dpo_period ! i = NaN)
      \<and> (\<forall>i<length df. 1 \<le> dpo_period \<and> dpo_period \<le> i + 1 \<and> dpo_period div 2 + 1 \<le> i \<longrightarrow>
             add_dpo df dpo_period ! i =
               Fin (close (df ! (i - (dpo_period div 2 + 1)))
                    - mean (map close (window_at dpo_period df i)))))
   \<and> (let (cvo, vol_short, vol_long) = add_cvo df short long in
      length cvo = length df \<and> length vol_short = length df \<and> length vol_long = length df)
   \<and> (let (plus_di, minus_di, adx) = add_adx df adx_period in
      length plus_di = length df \<and> length minus_di = length df \<and> length adx = length df
      \<and> (\<forall>i<length df. i = 0 \<or> i < adx_period \<longrightarrow>
             plus_di ! i = NaN \<and> minus_di ! i = NaN \<and> adx ! i = NaN)
      \<and> (\<forall>i<length df. 1 \<le> i \<longrightarrow>
             plus_di ! i = di_of adx_period (plus_dm_of df) (true_range df) ! (i - 1)
             \<and> minus_di ! i = di_of adx_period (minus_dm_of df) (true_range df) ! (i - 1)
             \<and> adx ! i = rolling adx_period agg_mean
                            (dx_of (di_of adx_period (plus_dm_of df) (true_range df))
                                   (di_of adx_period (minus_dm_of df) (true_range df))) ! (i - 1)))"
proof -
  obtain upper ma lower where bb: "add_bollinger df bb_period num_std = (upper, ma, lower)"
    by (cases "add_bollinger df bb_period num_std") auto
  obtain macd macd_signal macd_hist
    where macd: "add_macd df fast slow signal = (macd, macd_signal, macd_hist)"
    by (cases "add_macd df fast slow signal") auto
  obtain cvo vol_short vol_long where cvo: "add_cvo df short long = (cvo, vol_short, vol_long)"
    by (cases "add_cvo df short long") auto
  obtain plus_di minus_di adx where adx: "add_adx df adx_period = (plus_di, minus_di, adx)"
    by (cases "add_adx df adx_period") auto
  have 1: "length upper = length df \<and> length ma = length df \<and> length lower = length df
      \<and> (\<forall>i<length df. i + 1 < bb_period \<longrightarrow>
             upper ! i = NaN \<and> ma ! i = NaN \<and> lower ! i = NaN)
      \<and> (\<forall>i<length df. 1 \<le> bb_period \<and> bb_period \<le> i + 1 \<longrightarrow>
             ma ! i = Fin (mean (map close (window_at bb_period df i))))"
    using bollinger_lengths [OF bb] bollinger_warmup [OF bb] bollinger_mid_value [OF bb]
    by blast
  have 2: "length macd = length df \<and> length macd_signal = length df
      \<and> length macd_hist = length df"
    using macd_lengths [OF macd] .
  have 3: "length (add_dpo df dpo_period) = length df
      \<and> (\<forall>i<length df. i < dpo_period div 2 + 1 \<or> i + 1 < dpo_period \<longrightarrow>
             add_dpo df dpo_period ! i = NaN)
      \<and> (\<forall>i<length df. 1 \<le> dpo_period \<and> dpo_period \<le> i + 1 \<and> dpo_period div 2 + 1 \<le> i \<longrightarrow>
             add_dpo df dpo_period ! i =
               Fin (close (df ! (i - (dpo_period div 2 + 1)))
                    - mean (map close (window_at dpo_period df i))))"
    using dpo_length [of df dpo_period] dpo_warmup [of _ df dpo_period]
      dpo_value [of _ df dpo_period]
    by blast
  have 4: "length cvo = length df \<and> length vol_short = length df \<and> length vol_long = length df"
    using cvo_lengths [OF cvo] .
  have 5: "length plus_di = length df \<and> length minus_di = length df \<and> length adx = length df
      \<and> (\<forall>i<length df. i = 0 \<or> i < adx_period \<longrightarrow>
             plus_di ! i = NaN \<and> minus_di ! i = NaN \<and> adx ! i = NaN)
      \<and> (\<forall>i<length df. 1 \<le> i \<longrightarrow>
             plus_di ! i = di_of adx_period (plus_dm_of df) (true_range df) ! (i - 1)
             \<and> minus_di ! i = di_of adx_period (minus_dm_of df) (true_range df) ! (i - 1)
             \<and> adx ! i = rolling adx_period agg_mean
                            (dx_of (di_of adx_period (plus_dm_of df) (true_range df))
                                   (di_of adx_period (minus_dm_of df) (true_range df))) ! (i - 1))"
  proof -
    have shifted: "plus_di ! i = di_of adx_period (plus_dm_of df) (true_range df) ! (i - 1)
             \<and> minus_di ! i = di_of adx_period (minus_dm_of df) (true_range df) ! (i - 1)
             \<and> adx ! i = rolling adx_period agg_mean
                            (dx_of (di_of adx_period (plus_dm_of df) (true_range df))
                                   (di_of adx_period (minus_dm_of df) (true_range df))) ! (i - 1)"
      if "i < length df" "1 \<le> i" for i
    proof -
      from that have "2 \<le> length df" by simp
      from add_adx_long [OF this, of adx_period] adx that show ?thesis
        by (auto simp: nth_Cons')
    qed
    with adx_lengths [OF adx] adx_warmup [OF adx] show ?thesis
      by blast
  qed
  from 1 2 3 4 5 show ?thesis
    unfolding bb macd cvo adx Let_def prod.case by blast
qed

theorem indicator_series_aligned_witness:
  "length (fst (add_bollinger [bar_of 110 90 100 1000, bar_of 100 95 98 2000, bar_of 105 97 104 500] 2 2)) = 3
   \<and> fst (add_bollinger [bar_of 110 90 100 1000, bar_of 100 95 98 2000, bar_of 105 97 104 500] 2 2) ! 0 = NaN
   \<and> add_dpo [bar_of 110 90 100 1000, bar_of 100 95 98 2000, bar_of 105 97 104 500] 2 ! 1 = NaN
   \<and> add_dpo [bar_of 110 90 100 1000, bar_of 100 95 98 2000, bar_of 105 97 104 500] 2 ! 2 = Fin (- 1)
   \<and> length (fst (add_adx [bar_of 110 90 100 1000, bar_of 100 95 98 2000, bar_of 105 97 104 500] 2)) = 3
   \<and> fst (add_adx [bar_of 110 90 100 1000, bar_of 100 95 98 2000, bar_of 105 97 104 500] 2) ! 0 = NaN"
  using indicator_series_aligned [of "[bar_of 110 90 100 1000, bar_of 100 95 98 2000, bar_of 105 97 104 500]" 2 2 3 1 1 2 1 3 2]
  by (simp add: Let_def split_def window_at_def mean_def bar_of_def)


section \<open>Range of the directional indicators\<close>

lemma fin_values_Some: "fin_values vs = Some rs \<Longrightarrow> vs = map Fin rs"
proof (induction vs arbitrary: rs)
  case Nil
  then show ?case by simp
next
  case (Cons v vs)
  then show ?case by (cases v) auto
qed

lemma sum_list_all2_mono:
  "list_all2 (\<le>) xs ys \<Longrightarrow> sum_list xs \<le> sum_list (ys :: real list)"
  by (induction rule: list_all2_induct) (simp_all add: add_mono)

lemma window_sum_mono:
  "list_all2 (\<le>) xs ys \<Longrightarrow> sum_list (window_at w xs i) \<le> sum_list (window_at w (ys :: real list) i)"
  unfolding window_at_def by (intro sum_list_all2_mono list_all2_takeI list_all2_dropI)

lemma window_sum_nonneg:
  assumes "\<forall>x\<in>set xs. 0 \<le> (x::real)"
  shows "0 \<le> sum_list (window_at w xs i)"
proof (rule sum_list_nonneg)
  fix x assume "x \<in> set (window_at w xs i)"
  then have "x \<in> set xs"
    unfolding window_at_def by (meson in_set_dropD in_set_takeD)
  with assms show "0 \<le> x" by simp
qed

lemma di_in_range:
  assumes le: "list_all2 (\<le>) dm tr" and nonneg: "\<forall>x\<in>set dm. 0 \<le> x" and i: "i < length dm"
  shows "in_range 0 100 (di_of period dm tr ! i)"
proof -
  from le have len: "length tr = length dm"
    by (simp add: list_all2_lengthD)
  let ?p = "sum_list (window_at period dm i)" and ?t = "sum_list (window_at period tr i)"
  have pt: "0 \<le> ?p" "?p \<le> ?t"
    using window_sum_nonneg [OF nonneg] window_sum_mono [OF le] by auto
  show ?thesis
  proof (cases "i + 1 < period")
    case True
    with i len show ?thesis
      by (simp add: di_of_def rolling_warmup)
  next
    case False
    with i len have eq: "di_of period dm tr ! i = fmul (Fin 100) (fdiv (Fin ?p) (replace0 (Fin ?t)))"
      by (simp add: di_of_def rolling_map_Fin_nth agg_sum_def)
    show ?thesis
    proof (cases "?t = 0")
      case True
      then show ?thesis by (simp add: eq replace0_def)
    next
      case False
      with pt have "0 < ?t" by simp
      with pt have "0 \<le> ?p / ?t" "?p / ?t \<le> 1" by simp_all
      with False show ?thesis by (simp add: eq replace0_def)
    qed
  qed
qed

lemma dx_in_range:
  assumes "in_range 0 100 p" "in_range 0 100 m"
  shows "in_range 0 100 (fdiv (fmul (Fin 100) (fabs (fsub p m))) (replace0 (fadd p m)))"
proof (cases p)
  case (Fin a)
  note p = this
  show ?thesis
  proof (cases m)
    case (Fin b)
    with p assms have ab: "0 \<le> a" "0 \<le> b" by simp_all
    show ?thesis
    proof (cases "a + b = 0")
      case True
      with p Fin show ?thesis by (simp add: replace0_def)
    next
      case False
      with ab have pos: "0 < a + b" by simp
      from ab have "\<bar>a - b\<bar> \<le> a + b" by simp
      with pos have "\<bar>a - b\<bar> / (a + b) \<le> 1" by simp
      then have "100 * \<bar>a - b\<bar> / (a + b) \<le> 100" by simp
      moreover from pos have "0 \<le> 100 * \<bar>a - b\<bar> / (a + b)" by simp
      ultimately show ?thesis
        using p Fin False by (simp add: replace0_def)
    qed
  next
    case NaN
    then show ?thesis by (simp add: replace0_def)
  qed (use assms in simp_all)
next
  case NaN
  then show ?thesis by simp
qed (use assms in simp_all)

lemma rolling_mean_in_range:
  assumes "\<forall>v\<in>set xs. in_range lo hi v" "i < length xs"
  shows "in_range lo hi (rolling w agg_mean xs ! i)"
proof (cases "fin_values (window_at w xs i)")
  case None
  with assms(2) show ?thesis by (simp add: rolling_nth)
next
  case (Some vs)
  from fin_values_Some [OF this] have win: "window_at w xs i = map Fin vs" .
  have each: "lo \<le> v \<and> v \<le> hi" if "v \<in> set vs" for v
  proof -
    from that win have "Fin v \<in> set (window_at w xs i)" by simp
    then have "Fin v \<in> set xs"
      unfolding window_at_def by (meson in_set_dropD in_set_takeD)
    with assms(1) show ?thesis by fastforce
  qed
  show ?thesis
  proof (cases "vs = []")
    case True
    with Some assms(2) show ?thesis by (simp add: rolling_nth agg_mean_def)
  next
    case False
    then have n: "0 < real (length vs)" by simp
    have "sum_list (map (\<lambda>_. lo) vs) \<le> sum_list (map (\<lambda>v. v) vs)"
      by (rule sum_list_mono) (use each in simp)
    then have lo: "real (length vs) * lo \<le> sum_list vs"
      by (simp add: sum_list_triv)
    have "sum_list (map (\<lambda>v. v) vs) \<le> sum_list (map (\<lambda>_. hi) vs)"
      by (rule sum_list_mono) (use each in simp)
    then have hi: "sum_list vs \<le> real (length vs) * hi"
      by (simp add: sum_list_triv)
    from lo hi n have "lo \<le> mean vs \<and> mean vs \<le> hi"
      by (simp add: mean_def pos_le_divide_eq pos_divide_le_eq mult.commute)
    with Some False assms(2) show ?thesis
      by (simp add: rolling_nth agg_mean_def)
  qed
qed

lemma true_range_nth:
  "j + 1 < length df \<Longrightarrow>
   true_range df ! j =
     max (high (df ! (j + 1)) - low (df ! (j + 1)))
       (max \<bar>high (df ! (j + 1)) - close (df ! j)\<bar> \<bar>low (df ! (j + 1)) - close (df ! j)\<bar>)"
  by (simp add: true_range_def nth_tl nth_butlast)

lemma plus_dm_nth:
  "j + 1 < length df \<Longrightarrow>
   plus_dm_of df ! j =
     (if high (df ! (j + 1)) - high (df ! j) > low (df ! j) - low (df ! (j + 1))
         \<and> high (df ! (j + 1)) - high (df ! j) > 0
      then high (df ! (j + 1)) - high (df ! j) else 0)"
  by (simp add: plus_dm_of_def nth_tl nth_butlast)

lemma minus_dm_nth:
  "j + 1 < length df \<Longrightarrow>
   minus_dm_of df ! j =
     (if low (df ! j) - low (df ! (j + 1)) > high (df ! (j + 1)) - high (df ! j)
         \<and> low (df ! j) - low (df ! (j + 1)) > 0
      then low (df ! j) - low (df ! (j + 1)) else 0)"
  by (simp add: minus_dm_of_def nth_tl nth_butlast)

lemma dm_le_tr:
  assumes "\<forall>b\<in>set df. ordered_bar b"
  shows "list_all2 (\<le>) (plus_dm_of df) (true_range df)"
    and "list_all2 (\<le>) (minus_dm_of df) (true_range df)"
    and "\<forall>x\<in>set (plus_dm_of df). 0 \<le> x"
    and "\<forall>x\<in>set (minus_dm_of df). 0 \<le> x"
proof -
  have ob: "ordered_bar (df ! k)" if "k < length df" for k
    using assms that by simp
  have p: "plus_dm_of df ! j \<le> true_range df ! j \<and> minus_dm_of df ! j \<le> true_range df ! j
           \<and> 0 \<le> plus_dm_of df ! j \<and> 0 \<le> minus_dm_of df ! j"
    if "j + 1 < length df" for j
  proof -
    from that ob [of j] ob [of "j + 1"]
    have "low (df ! j) \<le> close (df ! j)" "close (df ! j) \<le> high (df ! j)"
      "low (df ! (j + 1)) \<le> high (df ! (j + 1))"
      by (auto simp: ordered_bar_def)
    then show ?thesis
      unfolding true_range_nth [OF that] plus_dm_nth [OF that] minus_dm_nth [OF that]
      by (auto simp: max_def abs_if)
  qed
  show "list_all2 (\<le>) (plus_dm_of df) (true_range df)"
    by (rule list_all2_all_nthI) (use p in auto)
  show "list_all2 (\<le>) (minus_dm_of df) (true_range df)"
    by (rule list_all2_all_nthI) (use p in auto)
  show "\<forall>x\<in>set (plus_dm_of df). 0 \<le> x"
    using p by (auto simp: in_set_conv_nth)
  show "\<forall>x\<in>set (minus_dm_of df). 0 \<le> x"
    using p by (auto simp: in_set_conv_nth)
qed

lemma fround_id [simp]: "fround (\<lambda>x. x) v = v"
  by (cases v) simp_all

lemma foldl_add: "foldl (\<lambda>s v. s + v) a vs = a + sum_list (vs :: real list)"
  by (induction vs arbitrary: a) simp_all

lemma agg_rounded_id: "agg_sum_rounded (\<lambda>x. x) = agg_sum" "agg_mean_rounded (\<lambda>x. x) = agg_mean"
  by (rule ext, simp add: agg_sum_rounded_def agg_sum_def agg_mean_rounded_def agg_mean_def
        mean_def foldl_add)+

lemma add_adx_rounded_id: "add_adx_rounded (\<lambda>x. x) df period = add_adx df period"
  unfolding add_adx_rounded_def add_adx_def agg_rounded_id fround_id ..

text \<open>
  C5, as the code has it. On a table whose bars all have \<open>low \<le> close \<le> high\<close> and
  \<open>low \<le> open \<le> high\<close>, and for every window of at least 1, each value of +DI, -DI and
  ADX is undefined (NaN) or lies in \<open>[0, 100]\<close> when every arithmetic operation is exact
  (\<open>add_adx\<close>, which is \<open>add_adx_rounded\<close> without rounding). The script computes in
  float64 and clamps nothing, so that rounding can carry DX and ADX above 100.
\<close>

theorem adx_in_range:
  assumes "\<forall>b\<in>set df. low b \<le> close b \<and> close b \<le> high b \<and> low b \<le> opn b \<and> opn b \<le> high b"
    and "1 \<le> period"
  shows "add_adx_rounded (\<lambda>x. x) df period = add_adx df period
       \<and> (let (plus_di, minus_di, adx) = add_adx df period in
           \<forall>i<length df. in_range 0 100 (plus_di ! i) \<and> in_range 0 100 (minus_di ! i)
                          \<and> in_range 0 100 (adx ! i))"
proof (cases "length df < 2")
  case True
  then show ?thesis by (simp add: add_adx_short add_adx_rounded_id)
next
  case False
  then have long: "2 \<le> length df" by simp
  from assms(1) have ob: "\<forall>b\<in>set df. ordered_bar b"
    by (simp add: ordered_bar_def)
  let ?pdi = "di_of period (plus_dm_of df) (true_range df)"
  let ?mdi = "di_of period (minus_dm_of df) (true_range df)"
  let ?dx = "dx_of ?pdi ?mdi"
  have pdi: "in_range 0 100 (?pdi ! j)" if "j < length df - 1" for j
    using di_in_range [OF dm_le_tr(1) [OF ob] dm_le_tr(3) [OF ob]] that by simp
  have mdi: "in_range 0 100 (?mdi ! j)" if "j < length df - 1" for j
    using di_in_range [OF dm_le_tr(2) [OF ob] dm_le_tr(4) [OF ob]] that by simp
  have dx: "\<forall>v\<in>set ?dx. in_range 0 100 v"
  proof
    fix v assume "v \<in> set ?dx"
    then obtain j where j: "j < length ?dx" "v = ?dx ! j"
      by (auto simp: in_set_conv_nth)
    then have j': "j < length df - 1" by simp
    then have "?dx ! j = fdiv (fmul (Fin 100) (fabs (fsub (?pdi ! j) (?mdi ! j))))
                              (replace0 (fadd (?pdi ! j) (?mdi ! j)))"
      by (simp add: dx_of_def)
    with dx_in_range [OF pdi [OF j'] mdi [OF j']] j show "in_range 0 100 v"
      by simp
  qed
  have adx: "in_range 0 100 (rolling period agg_mean ?dx ! j)" if "j < length df - 1" for j
    using rolling_mean_in_range [OF dx, of j period] that by simp
  have "in_range 0 100 ((NaN # ?pdi) ! i) \<and> in_range 0 100 ((NaN # ?mdi) ! i)
        \<and> in_range 0 100 ((NaN # rolling period agg_mean ?dx) ! i)" if "i < length df" for i
  proof (cases i)
    case 0
    then show ?thesis by simp
  next
    case (Suc j)
    with that have "j < length df - 1" by simp
    with pdi mdi adx Suc show ?thesis by simp
  qed
  then show ?thesis
    by (simp add: add_adx_long [OF long] add_adx_rounded_id)
qed


lemma ex_tr: "true_range example_bars = [5, 8, 20, 5]"
  by (simp add: true_range_def example_bars_def bar_of_def)

lemma ex_pdm: "plus_dm_of example_bars = [0, 5, 0, 0]"
  by (simp add: plus_dm_of_def example_bars_def bar_of_def)

lemma ex_mdm: "minus_dm_of example_bars = [0, 0, 7, 0]"
  by (simp add: minus_dm_of_def example_bars_def bar_of_def)

lemma ex_pdi: "di_of 2 [0, 5, 0, 0] [5, 8, 20, 5] = [NaN, Fin (500 / 13), Fin (125 / 7), Fin 0]"
  by (simp add: di_of_def rolling_def window_at_def agg_sum_def replace0_def upt_rec)

lemma ex_mdi: "di_of 2 [0, 0, 7, 0] [5, 8, 20, 5] = [NaN, Fin 0, Fin 25, Fin 28]"
  by (simp add: di_of_def rolling_def window_at_def agg_sum_def replace0_def upt_rec)

lemma ex_dx: "dx_of [NaN, Fin (500 / 13), Fin (125 / 7), Fin 0] [NaN, Fin 0, Fin 25, Fin 28]
    = [NaN, Fin 100, Fin (50 / 3), Fin 100]"
  by (simp add: dx_of_def replace0_def)

lemma ex_adx: "rolling 2 agg_mean [NaN, Fin 100, Fin (50 / 3), Fin 100] = [NaN, NaN, Fin (175 / 3), Fin (175 / 3)]"
  by (simp add: rolling_def window_at_def agg_mean_def mean_def upt_rec)

theorem adx_in_range_witness:
  "(1::nat) \<le> 2
   \<and> add_adx example_bars 2 =
        ([NaN, NaN, Fin (500 / 13), Fin (125 / 7), Fin 0],
         [NaN, NaN, Fin 0, Fin 25, Fin 28],
         [NaN, NaN, NaN, Fin (175 / 3), Fin (175 / 3)])
   \<and> in_range 0 100 (Fin (500 / 13)) \<and> in_range 0 100 (Fin 28) \<and> in_range 0 100 (Fin (175 / 3))"
proof -
  have h: "\<forall>b\<in>set example_bars. low b \<le> close b \<and> close b \<le> high b \<and> low b \<le> opn b \<and> opn b \<le> high b"
    by (simp add: example_bars_def bar_of_def)
  have p: "(1::nat) \<le> 2" by simp
  have "2 \<le> length example_bars"
    by (simp add: example_bars_def)
  from add_adx_long [OF this, of 2]
  have v: "add_adx example_bars 2 =
        ([NaN, NaN, Fin (500 / 13), Fin (125 / 7), Fin 0],
         [NaN, NaN, Fin 0, Fin 25, Fin 28],
         [NaN, NaN, NaN, Fin (175 / 3), Fin (175 / 3)])"
    by (simp add: ex_tr ex_pdm ex_mdm ex_pdi ex_mdi ex_dx ex_adx)
  from adx_in_range [OF h p] v show ?thesis
    by simp
qed


subsection \<open>Rounding to float64\<close>

lemma round_even_of_int [simp]: "round_even (of_int n) = n"
  by (simp add: round_even_def)

lemma ulp64_ge1:
  assumes "2 ^ k \<le> x" "x < 2 ^ (k + 1)"
  shows "ulp64 x = 2 ^ k / 2 ^ 52"
proof -
  have "(0::real) < 2 ^ k"
    by simp
  from this assms(1) have pos: "0 < x"
    by (rule less_le_trans)
  have "2 powr (of_int (int k)) \<le> x" "x < 2 powr (of_int (int k) + 1)"
    using assms by (simp_all add: powr_realpow powr_add)
  then have "\<lfloor>log 2 x\<rfloor> = int k"
    using floor_log_eq_powr_iff [of x 2 "int k"] pos by simp
  then show ?thesis
    by (simp add: ulp64_def powr_diff powr_realpow)
qed

lemma ulp64_lt1:
  assumes "1 / 2 ^ k \<le> x" "x < 2 / 2 ^ k"
  shows "ulp64 x = 1 / 2 ^ (k + 52)"
proof -
  have "(0::real) < 1 / 2 ^ k"
    by simp
  from this assms(1) have pos: "0 < x"
    by (rule less_le_trans)
  have p: "2 powr (- real k) = 1 / 2 ^ k"
    by (simp add: powr_minus powr_realpow divide_simps)
  have "(2::real) powr (- real k + 1) = 2 powr (- real k) * 2 powr 1"
    by (rule powr_add)
  then have "(2::real) powr (- real k + 1) = 2 powr (- real k) * 2"
    by simp
  with p have "2 powr (of_int (- int k)) \<le> x" "x < 2 powr (of_int (- int k) + 1)"
    using assms by simp_all
  then have "\<lfloor>log 2 x\<rfloor> = - int k"
    using floor_log_eq_powr_iff [of x 2 "- int k"] pos by simp
  then show ?thesis
    by (simp add: ulp64_def powr_diff powr_realpow powr_minus power_add divide_simps)
qed

lemma ulp64_pos: "0 < ulp64 x"
  by (simp add: ulp64_def)

lemma round64_pos_exact:
  assumes "x = ulp64 x * of_int n"
  shows "round64_pos x = x"
proof -
  from assms ulp64_pos [of x] have "x / ulp64 x = of_int n"
    by (simp add: field_simps)
  then show ?thesis
    using assms by (simp add: round64_pos_def)
qed

lemma round64_pos_dyadic:
  assumes "0 < m" "m < 2 ^ 53"
  shows "round64_pos (of_int m / 2 ^ k) = of_int m / 2 ^ k"
proof -
  define x :: real where "x = of_int m / 2 ^ k"
  define e where "e = \<lfloor>log 2 x\<rfloor>"
  have pos: "0 < x"
    using assms(1) by (simp add: x_def)
  from floor_log_eq_powr_iff [of x 2 e] pos have low: "2 powr of_int e \<le> x"
    by (simp add: e_def)
  have "real_of_int m < 2 ^ 53"
    using assms(2) by (metis of_int_less_iff of_int_numeral of_int_power)
  then have "x < 2 ^ 53 / 2 ^ k"
    by (simp add: x_def divide_strict_right_mono)
  also have "\<dots> = 2 powr (53 - real k)"
    by (simp add: powr_diff powr_realpow)
  finally have "x < 2 powr (53 - real k)" .
  with low have "2 powr of_int e < 2 powr (53 - real k)"
    by (rule le_less_trans)
  then have "real_of_int e < 53 - real k"
    by simp
  then have le: "e \<le> 52 - int k"
    by linarith
  define j where "j = nat (52 - int k - e)"
  have j: "real j = 52 - real k - of_int e"
    using le by (simp add: j_def)
  have "ulp64 x * of_int (m * 2 ^ j) = 2 powr (of_int e - 52) * (of_int m * 2 powr real j)"
    by (simp add: ulp64_def e_def powr_realpow)
  also have "\<dots> = of_int m * (2 powr (of_int e - 52) * 2 powr real j)"
    by simp
  also have "2 powr (of_int e - 52) * 2 powr real j = 2 powr (- real k)"
    unfolding powr_add [symmetric] j by simp
  also have "of_int m * 2 powr (- real k) = x"
    by (simp add: x_def powr_minus powr_realpow divide_simps)
  finally have "x = ulp64 x * of_int (m * 2 ^ j)"
    by simp
  from round64_pos_exact [OF this] show ?thesis
    by (simp add: x_def)
qed

lemma round64_dyadic:
  assumes "\<bar>m\<bar> < 2 ^ 53"
  shows "round64 (of_int m / 2 ^ k) = of_int m / 2 ^ k"
proof -
  consider "m = 0" | "0 < m" | "m < 0" by linarith
  then show ?thesis
  proof cases
    case 1
    then show ?thesis by (simp add: round64_def)
  next
    case 2
    with assms have "m < 2 ^ 53" by simp
    moreover from 2 have "0 < real_of_int m / 2 ^ k"
      by simp
    ultimately show ?thesis
      using round64_pos_dyadic [OF 2, of k] by (simp add: round64_def)
  next
    case 3
    with assms have "0 < - m" "- m < 2 ^ 53" by simp_all
    moreover from 3 have "real_of_int m / 2 ^ k < 0"
      by (simp add: divide_neg_pos)
    ultimately show ?thesis
      using round64_pos_dyadic [of "- m" k] by (simp add: round64_def)
  qed
qed

lemma round64_int: "\<bar>m\<bar> < 2 ^ 53 \<Longrightarrow> round64 (of_int m) = of_int m"
  using round64_dyadic [of m 0] by simp

lemma round64_eval_ge1:
  assumes "2 ^ k \<le> x" "x < 2 ^ (k + 1)" "round_even (x * 2 ^ 52 / 2 ^ k) = n"
  shows "round64 x = of_int n * 2 ^ k / 2 ^ 52"
proof -
  have "(0::real) < 2 ^ k"
    by simp
  from this assms(1) have pos: "0 < x"
    by (rule less_le_trans)
  note u = ulp64_ge1 [OF assms(1,2)]
  have q: "x / ulp64 x = x * 2 ^ 52 / 2 ^ k"
    unfolding u by simp
  from pos have "round64 x = ulp64 x * of_int (round_even (x / ulp64 x))"
    by (simp add: round64_def round64_pos_def)
  also have "\<dots> = ulp64 x * of_int n"
    unfolding q assms(3) ..
  also have "\<dots> = of_int n * 2 ^ k / 2 ^ 52"
    unfolding u by simp
  finally show ?thesis .
qed

lemma round64_minus_di: "round64 (100 * (1951559838527215 / 2251799813685248)) = 6098624495397547 / 70368744177664"
proof -
  have "round64 (100 * (1951559838527215 / 2251799813685248))
        = of_int 6098624495397547 * 2 ^ 6 / 2 ^ 52"
    by (rule round64_eval_ge1) (simp_all add: round_even_def)
  then show ?thesis by simp
qed

lemma round64_numerator: "round64 (100 * (6098624495397547 / 70368744177664)) = 2382275193514667 / 274877906944"
proof -
  have "round64 (100 * (6098624495397547 / 70368744177664))
        = of_int 4764550387029334 * 2 ^ 13 / 2 ^ 52"
    by (rule round64_eval_ge1) (simp_all add: round_even_def)
  then show ?thesis by simp
qed

lemma round64_dx: "round64 ((2382275193514667 / 274877906944) / (6098624495397547 / 70368744177664))
           = 7036874417766401 / 70368744177664"
proof -
  have "round64 ((2382275193514667 / 274877906944) / (6098624495397547 / 70368744177664))
        = of_int 7036874417766401 * 2 ^ 6 / 2 ^ 52"
    by (rule round64_eval_ge1) (simp_all add: round_even_def)
  then show ?thesis by simp
qed

lemma small_ints:
  "round64 0 = 0" "round64 2 = 2" "round64 13 = 13" "round64 15 = 15"
  "round64 (- 3) = - 3" "round64 (- 12) = - 12" "round64 (- 13) = - 13"
  using round64_int [of 0] round64_int [of 2] round64_int [of 13] round64_int [of 15]
    round64_int [of "- 3"] round64_int [of "- 12"] round64_int [of "- 13"]
  by simp_all

lemma dyadics:
  "round64 (6098624495397547 / 70368744177664) = 6098624495397547 / 70368744177664"
  "round64 (- (6098624495397547 / 70368744177664)) = - (6098624495397547 / 70368744177664)"
  "round64 (7036874417766401 / 70368744177664) = 7036874417766401 / 70368744177664"
  "round64 (7036874417766401 / 35184372088832) = 7036874417766401 / 35184372088832"
  using round64_dyadic [of 6098624495397547 46] round64_dyadic [of "- 6098624495397547" 46]
    round64_dyadic [of 7036874417766401 46] round64_dyadic [of 7036874417766401 45]
  by simp_all


lemma normal_forms:
  "round64 (48788995963180375 / 562949953421312) = 6098624495397547 / 70368744177664"
  "round64 (152465612384938675 / 17592186044416) = 2382275193514667 / 274877906944"
  "round64 (609862449539754752 / 6098624495397547) = 7036874417766401 / 70368744177664"
  using round64_minus_di round64_numerator round64_dx by simp_all

lemma round64_ratio: "round64 (13 / 15) = 1951559838527215 / 2251799813685248"
proof -
  have u: "ulp64 (13 / 15) = 1 / 2 ^ 53"
    using ulp64_lt1 [of 1 "13 / 15"] by simp
  show ?thesis
    by (simp add: round64_def round64_pos_def u round_even_def)
qed

lemma add_adx_rounded_long:
  assumes "2 \<le> length df"
  shows "add_adx_rounded rnd df period =
     (NaN # di_rounded rnd period (plus_dm_rounded rnd df) (true_range_rounded rnd df),
      NaN # di_rounded rnd period (minus_dm_rounded rnd df) (true_range_rounded rnd df),
      NaN # rolling period (agg_mean_rounded rnd)
              (dx_rounded rnd
                 (di_rounded rnd period (plus_dm_rounded rnd df) (true_range_rounded rnd df))
                 (di_rounded rnd period (minus_dm_rounded rnd df) (true_range_rounded rnd df))))"
proof -
  have pad: "length df - (length df - 1) = 1"
    using assms by simp
  have "\<not> length df < 2"
    using assms by simp
  then show ?thesis
    unfolding add_adx_rounded_def Let_def
    by (simp add: pad di_rounded_def dx_rounded_def true_range_rounded_def
        plus_dm_rounded_def minus_dm_rounded_def)
qed

lemma os_tr: "true_range_rounded round64 overshoot_bars = [15, 0, 15]"
  by (simp add: true_range_rounded_def overshoot_bars_def bar_of_def small_ints)

lemma os_pdm: "plus_dm_rounded round64 overshoot_bars = [0, 0, 0]"
  by (simp add: plus_dm_rounded_def overshoot_bars_def bar_of_def small_ints)

lemma os_mdm: "minus_dm_rounded round64 overshoot_bars = [13, 0, 13]"
  by (simp add: minus_dm_rounded_def overshoot_bars_def bar_of_def small_ints)

lemma os_pdi: "di_rounded round64 2 [0, 0, 0] [15, 0, 15] = [NaN, Fin 0, Fin 0]"
  by (simp add: di_rounded_def rolling_def window_at_def agg_sum_rounded_def replace0_def upt_rec
      small_ints)

lemma os_mdi: "di_rounded round64 2 [13, 0, 13] [15, 0, 15]
    = [NaN, Fin (6098624495397547 / 70368744177664), Fin (6098624495397547 / 70368744177664)]"
  by (simp add: di_rounded_def rolling_def window_at_def agg_sum_rounded_def replace0_def upt_rec
      small_ints round64_ratio normal_forms)

lemma os_dx: "dx_rounded round64 [NaN, Fin 0, Fin 0]
     [NaN, Fin (6098624495397547 / 70368744177664), Fin (6098624495397547 / 70368744177664)]
    = [NaN, Fin (7036874417766401 / 70368744177664), Fin (7036874417766401 / 70368744177664)]"
  by (simp add: dx_rounded_def replace0_def dyadics normal_forms)

lemma os_adx: "rolling 2 (agg_mean_rounded round64)
      [NaN, Fin (7036874417766401 / 70368744177664), Fin (7036874417766401 / 70368744177664)]
    = [NaN, NaN, Fin (7036874417766401 / 70368744177664)]"
  by (simp add: rolling_def window_at_def agg_mean_rounded_def upt_rec dyadics)

lemma overshoot_value:
  "add_adx_f64 overshoot_bars 2 =
     ([NaN, NaN, Fin 0, Fin 0],
      [NaN, NaN, Fin (6098624495397547 / 70368744177664), Fin (6098624495397547 / 70368744177664)],
      [NaN, NaN, NaN, Fin (7036874417766401 / 70368744177664)])"
proof -
  have "2 \<le> length overshoot_bars"
    by (simp add: overshoot_bars_def)
  from add_adx_rounded_long [OF this, of round64 2] show ?thesis
    by (simp add: add_adx_f64_def os_tr os_pdm os_mdm os_pdi os_mdi os_dx os_adx)
qed

text \<open>
  As the specification states it, the property fails in float64 on four bars that satisfy
  \<open>low \<le> close \<le> high\<close>, with the window 2: \<open>-DI\<close> is \<open>100\<cdot>(13/15)\<close> rounded, DX is
  \<open>(100\<cdot>-DI)/-DI\<close> rounded, and the ADX at the last bar is \<open>100 + 2\<^sup>-\<^sup>4\<^sup>6\<close>, printed as
  100.00000000000001.
\<close>

theorem adx_in_range_counterexample:
  "list_all ordered_bar overshoot_bars
   \<and> add_adx_f64 overshoot_bars 2 =
        ([NaN, NaN, Fin 0, Fin 0],
         [NaN, NaN, Fin (6098624495397547 / 70368744177664),
                    Fin (6098624495397547 / 70368744177664)],
         [NaN, NaN, NaN, Fin (100 + 1 / 2 ^ 46)])
   \<and> \<not> in_range 0 100 (Fin (100 + 1 / 2 ^ 46))"
proof -
  have "list_all ordered_bar overshoot_bars"
    by (simp add: overshoot_bars_def ordered_bar_def bar_of_def)
  moreover have "(7036874417766401 / 70368744177664 :: real) = 100 + 1 / 2 ^ 46"
    by simp
  ultimately show ?thesis
    using overshoot_value by simp
qed


section \<open>Order of the Bollinger bands\<close>

lemma agg_std_nonneg:
  assumes "agg_std vs = Fin s"
  shows "0 \<le> s"
proof -
  from assms have len: "2 \<le> length vs"
    and s: "s = sqrt (sum_list (map (\<lambda>v. (v - mean vs)\<^sup>2) vs) / (real (length vs) - 1))"
    by (auto simp: agg_std_def split: if_splits)
  have "0 \<le> sum_list (map (\<lambda>v. (v - mean vs)\<^sup>2) vs)"
    by (rule sum_list_nonneg) auto
  moreover from len have "0 < real (length vs) - 1"
    by simp
  ultimately show ?thesis
    unfolding s by simp
qed

lemma band_order:
  assumes "0 \<le> k" "fadd m (fmul sd (Fin k)) = Fin u" "fsub m (fmul sd (Fin k)) = Fin l"
    "m = Fin c" "sd = NaN \<or> (\<exists>s. sd = Fin s \<and> 0 \<le> s)"
  shows "l \<le> c \<and> c \<le> u"
proof -
  from assms(2,4,5) obtain s where s: "sd = Fin s" "0 \<le> s"
    by auto
  with assms have "u = c + s * k" "l = c - s * k"
    by simp_all
  moreover from s assms(1) have "0 \<le> s * k" by simp
  ultimately show ?thesis by simp
qed

lemma band_order':
  assumes "0 \<le> k" "fadd m (fmul (Fin k) sd) = Fin u" "fsub m (fmul (Fin k) sd) = Fin l"
    "m = Fin c" "sd = NaN \<or> (\<exists>s. sd = Fin s \<and> 0 \<le> s)"
  shows "l \<le> c \<and> c \<le> u"
proof -
  from assms(2,4,5) obtain s where s: "sd = Fin s" "0 \<le> s"
    by auto
  with assms have "u = c + k * s" "l = c - k * s"
    by simp_all
  moreover from s assms(1) have "0 \<le> k * s" by simp
  ultimately show ?thesis by simp
qed

lemma rolling_std_cases:
  assumes "i < length df"
  shows "rolling w agg_std (column f df) ! i = NaN
         \<or> (\<exists>s. rolling w agg_std (column f df) ! i = Fin s \<and> 0 \<le> s)"
proof (cases "rolling w agg_std (column f df) ! i")
  case (Fin s)
  with assms have "agg_std (map f (window_at w df i)) = Fin s"
    by (simp add: rolling_column_nth split: if_splits)
  from agg_std_nonneg [OF this] Fin show ?thesis by simp
next
  case NaN
  then show ?thesis by simp
qed (use assms in \<open>simp_all add: rolling_column_nth agg_std_def split: if_splits\<close>)

text \<open>
  C8. For a multiplier \<open>k \<ge> 0\<close> and a window of at least 1, the bands of \<open>add_bollinger\<close>
  are \<open>upper = mid + k\<cdot>stdev\<close> and \<open>lower = mid - k\<cdot>stdev\<close> with \<open>mid\<close> the mean and
  \<open>stdev\<close> the standard deviation of the same window of closes, and at every index where
  the three values are defined \<open>lower \<le> mid \<le> upper\<close>; the same order holds for the bands
  of app10.py (window 20, \<open>k = 2\<close>).
\<close>

theorem bollinger_band_order:
  assumes "0 \<le> k" and "1 \<le> period"
  shows "(let (upper, ma, lower) = add_bollinger df period k in
           \<forall>i<length df.
             (period \<le> i + 1 \<longrightarrow>
                ma ! i = agg_mean (map close (window_at period df i))
                \<and> upper ! i = fadd (ma ! i) (fmul (agg_std (map close (window_at period df i))) (Fin k))
                \<and> lower ! i = fsub (ma ! i) (fmul (agg_std (map close (window_at period df i))) (Fin k)))
             \<and> (\<forall>u m l. upper ! i = Fin u \<and> ma ! i = Fin m \<and> lower ! i = Fin l
                         \<longrightarrow> l \<le> m \<and> m \<le> u))
       \<and> (let (bb_mid, bb_up, bb_low) = app10_bollinger df in
           \<forall>i<length df. \<forall>u m l. bb_up ! i = Fin u \<and> bb_mid ! i = Fin m \<and> bb_low ! i = Fin l
                         \<longrightarrow> l \<le> m \<and> m \<le> u)"
proof -
  have tb: "(period \<le> i + 1 \<longrightarrow>
                ma ! i = agg_mean (map close (window_at period df i))
                \<and> upper ! i = fadd (ma ! i) (fmul (agg_std (map close (window_at period df i))) (Fin k))
                \<and> lower ! i = fsub (ma ! i) (fmul (agg_std (map close (window_at period df i))) (Fin k)))
             \<and> (\<forall>u m l. upper ! i = Fin u \<and> ma ! i = Fin m \<and> lower ! i = Fin l
                         \<longrightarrow> l \<le> m \<and> m \<le> u)"
    if bb: "add_bollinger df period k = (upper, ma, lower)" and i: "i < length df"
    for upper ma lower i
  proof -
    let ?ma = "rolling period agg_mean (column close df)"
    let ?sd = "rolling period agg_std (column close df)"
    from bb have eqs: "ma = ?ma" "upper = map2 fadd ?ma (map (\<lambda>s. fmul s (Fin k)) ?sd)"
      "lower = map2 fsub ?ma (map (\<lambda>s. fmul s (Fin k)) ?sd)"
      by (auto simp: add_bollinger_def Let_def)
    from i have nth: "upper ! i = fadd (?ma ! i) (fmul (?sd ! i) (Fin k))"
      "lower ! i = fsub (?ma ! i) (fmul (?sd ! i) (Fin k))"
      by (simp_all add: eqs)
    have vals: "ma ! i = agg_mean (map close (window_at period df i))
                \<and> upper ! i = fadd (ma ! i) (fmul (agg_std (map close (window_at period df i))) (Fin k))
                \<and> lower ! i = fsub (ma ! i) (fmul (agg_std (map close (window_at period df i))) (Fin k))"
      if "period \<le> i + 1"
      using that i by (simp add: nth eqs(1) rolling_column_nth)
    have ord: "l \<le> m \<and> m \<le> u" if "upper ! i = Fin u" "ma ! i = Fin m" "lower ! i = Fin l" for u m l
      using band_order [OF assms(1), of "?ma ! i" "?sd ! i" u l m] that
        rolling_std_cases [OF i, of period close]
      by (simp add: nth eqs(1))
    from vals ord show ?thesis by blast
  qed
  have a10: "l \<le> m \<and> m \<le> u"
    if bb: "app10_bollinger df = (bb_mid, bb_up, bb_low)" and i: "i < length df"
      and d: "bb_up ! i = Fin u" "bb_mid ! i = Fin m" "bb_low ! i = Fin l"
    for bb_mid bb_up bb_low i u m l
  proof -
    let ?ma = "rolling 20 agg_mean (column close df)"
    let ?sd = "rolling 20 agg_std (column close df)"
    from bb have eqs: "bb_mid = ?ma" "bb_up = map2 fadd ?ma (map (\<lambda>s. fmul (Fin 2) s) ?sd)"
      "bb_low = map2 fsub ?ma (map (\<lambda>s. fmul (Fin 2) s) ?sd)"
      by (auto simp: app10_bollinger_def Let_def)
    from i have nth: "bb_up ! i = fadd (?ma ! i) (fmul (Fin 2) (?sd ! i))"
      "bb_low ! i = fsub (?ma ! i) (fmul (Fin 2) (?sd ! i))"
      by (simp_all add: eqs)
    show ?thesis
      using band_order' [of 2 "?ma ! i" "?sd ! i" u l m] d rolling_std_cases [OF i, of 20 close]
      by (simp add: nth eqs(1))
  qed
  obtain upper ma lower where bb: "add_bollinger df period k = (upper, ma, lower)"
    by (cases "add_bollinger df period k") auto
  obtain bb_mid bb_up bb_low where ab: "app10_bollinger df = (bb_mid, bb_up, bb_low)"
    by (cases "app10_bollinger df") auto
  from tb [OF bb] a10 [OF ab] show ?thesis
    unfolding bb ab Let_def prod.case by blast
qed

theorem bollinger_band_order_witness:
  "(0::real) \<le> 2 \<and> (1::nat) \<le> 3
   \<and> add_bollinger rising_bars 3 2 = ([NaN, NaN, Fin 102], [NaN, NaN, Fin 100], [NaN, NaN, Fin 98])
   \<and> (98::real) \<le> 100 \<and> (100::real) \<le> 102"
proof -
  have v: "add_bollinger rising_bars 3 2
           = ([NaN, NaN, Fin 102], [NaN, NaN, Fin 100], [NaN, NaN, Fin 98])"
    by (simp add: add_bollinger_def rising_bars_def bar_of_def column_def rolling_def
        window_at_def agg_mean_def agg_std_def mean_def upt_rec)
  have "(0::real) \<le> 2" "(1::nat) \<le> 3" by simp_all
  from bollinger_band_order [OF this, of rising_bars] v
  have "(98::real) \<le> 100 \<and> (100::real) \<le> 102"
    by (simp add: rising_bars_def)
  with v show ?thesis by simp
qed


section \<open>Fibonacci retracement levels\<close>

lemma col_max_Max:
  assumes "xs \<noteq> []"
  shows "col_max xs = Fin (Max (set xs))"
proof -
  from assms obtain y ys where xs: "xs = y # ys"
    by (cases xs) auto
  have "fold max ys y = Max (set (y # ys))"
    by (simp only: Max.set_eq_fold)
  then show ?thesis
    by (simp only: xs col_max.simps)
qed

lemma col_min_Min:
  assumes "xs \<noteq> []"
  shows "col_min xs = Fin (Min (set xs))"
proof -
  from assms obtain y ys where xs: "xs = y # ys"
    by (cases xs) auto
  have "fold min ys y = Min (set (y # ys))"
    by (simp only: Min.set_eq_fold)
  then show ?thesis
    by (simp only: xs col_min.simps)
qed

lemma levels_decreasing:
  fixes h l :: real
  assumes "l \<le> h"
  shows "sorted_wrt (\<ge>)
           [h, h - 0.236 * (h - l), h - 0.382 * (h - l), h - 0.5 * (h - l),
            h - 0.618 * (h - l), h - 0.786 * (h - l), l]"
proof -
  have gen: "sorted_wrt (\<ge>)
           [h, h - 0.236 * d, h - 0.382 * d, h - 0.5 * d, h - 0.618 * d, h - 0.786 * d, h - d]"
    if "0 \<le> d" for d :: real
    using that by simp
  from assms have "0 \<le> h - l" by simp
  from gen [OF this] show ?thesis by simp
qed

lemma tail_rows_nonempty: "df \<noteq> [] \<Longrightarrow> 1 \<le> n \<Longrightarrow> tail_rows n df \<noteq> []"
  by (cases df) (auto simp: tail_rows_def)

lemma swing_order:
  assumes "\<forall>b\<in>set df. low b \<le> high b" "df \<noteq> []" "1 \<le> n"
  shows "Min (set (map low (tail_rows n df))) \<le> Max (set (map high (tail_rows n df)))"
proof -
  from tail_rows_nonempty [OF assms(2,3)] obtain b where b: "b \<in> set (tail_rows n df)"
    by (cases "tail_rows n df") auto
  then have "b \<in> set df"
    unfolding tail_rows_def by (rule in_set_dropD)
  with assms(1) have "low b \<le> high b" by simp
  moreover from b have "Min (set (map low (tail_rows n df))) \<le> low b"
    by (intro Min_le) auto
  moreover from b have "high b \<le> Max (set (map high (tail_rows n df)))"
    by (intro Max_ge) auto
  ultimately show ?thesis by linarith
qed

text \<open>
  C9. For a table of at least two bars and a lookback of at least 2, the level keyed
  \<open>"0.0"\<close> is the swing high (the maximum High over the last \<open>lookback\<close> bars), the level
  keyed \<open>"1.0"\<close> is the swing low (the minimum Low over them), the seven levels are
  \<open>high - ratio\<cdot>(high - low)\<close>, and they decrease as the ratio grows from 0.0 to 1.0
  (weakly: they are all equal when the swing high equals the swing low). The order needs
  the swing low not to exceed the swing high, which is the case as soon as every bar has
  \<open>low \<le> high\<close> (lemma \<open>swing_order\<close>).
\<close>

theorem fibonacci_levels_ordered:
  assumes "2 \<le> length df" and "2 \<le> lookback"
  shows "(let levels = fibonacci_levels df lookback;
              swing_high = Max (set (map high (tail_rows lookback df)));
              swing_low = Min (set (map low (tail_rows lookback df)))
          in map_of levels ''0.0'' = Some (Fin swing_high)
             \<and> map_of levels ''1.0'' = Some (Fin swing_low)
             \<and> map_of levels ''Swing High'' = Some (Fin swing_high)
             \<and> map_of levels ''Swing Low'' = Some (Fin swing_low)
             \<and> map (map_of levels) [''0.0'', ''0.236'', ''0.382'', ''0.5'', ''0.618'', ''0.786'', ''1.0'']
                 = map (\<lambda>v. Some (Fin v))
                     [swing_high,
                      swing_high - 0.236 * (swing_high - swing_low),
                      swing_high - 0.382 * (swing_high - swing_low),
                      swing_high - 0.5 * (swing_high - swing_low),
                      swing_high - 0.618 * (swing_high - swing_low),
                      swing_high - 0.786 * (swing_high - swing_low),
                      swing_low]
             \<and> (swing_low \<le> swing_high \<longrightarrow>
                sorted_wrt (\<ge>)
                     [swing_high,
                      swing_high - 0.236 * (swing_high - swing_low),
                      swing_high - 0.382 * (swing_high - swing_low),
                      swing_high - 0.5 * (swing_high - swing_low),
                      swing_high - 0.618 * (swing_high - swing_low),
                      swing_high - 0.786 * (swing_high - swing_low),
                      swing_low]))"
proof -
  from assms(1) have ne: "df \<noteq> []" by auto
  from assms(2) have "1 \<le> lookback" by simp
  from tail_rows_nonempty [OF ne this] have w: "tail_rows lookback df \<noteq> []" .
  then have hi: "col_max (map high (tail_rows lookback df))
               = Fin (Max (set (map high (tail_rows lookback df))))"
    and lo: "col_min (map low (tail_rows lookback df))
               = Fin (Min (set (map low (tail_rows lookback df))))"
    by (simp_all add: col_max_Max col_min_Min)
  from assms(1) have long: "\<not> length df < 2" by simp
  have keys: "map_of (fibonacci_levels df lookback) ''0.0''
                = Some (Fin (Max (set (map high (tail_rows lookback df)))))"
      "map_of (fibonacci_levels df lookback) ''1.0''
                = Some (Fin (Min (set (map low (tail_rows lookback df)))))"
      "map_of (fibonacci_levels df lookback) ''Swing High''
                = Some (Fin (Max (set (map high (tail_rows lookback df)))))"
      "map_of (fibonacci_levels df lookback) ''Swing Low''
                = Some (Fin (Min (set (map low (tail_rows lookback df)))))"
    unfolding fibonacci_levels_def Let_def hi lo by (simp_all add: long)
  have seven: "map (map_of (fibonacci_levels df lookback))
                  [''0.0'', ''0.236'', ''0.382'', ''0.5'', ''0.618'', ''0.786'', ''1.0'']
      = map (\<lambda>v. Some (Fin v))
          [Max (set (map high (tail_rows lookback df))),
           Max (set (map high (tail_rows lookback df)))
             - 0.236 * (Max (set (map high (tail_rows lookback df)))
                        - Min (set (map low (tail_rows lookback df)))),
           Max (set (map high (tail_rows lookback df)))
             - 0.382 * (Max (set (map high (tail_rows lookback df)))
                        - Min (set (map low (tail_rows lookback df)))),
           Max (set (map high (tail_rows lookback df)))
             - 0.5 * (Max (set (map high (tail_rows lookback df)))
                        - Min (set (map low (tail_rows lookback df)))),
           Max (set (map high (tail_rows lookback df)))
             - 0.618 * (Max (set (map high (tail_rows lookback df)))
                        - Min (set (map low (tail_rows lookback df)))),
           Max (set (map high (tail_rows lookback df)))
             - 0.786 * (Max (set (map high (tail_rows lookback df)))
                        - Min (set (map low (tail_rows lookback df)))),
           Min (set (map low (tail_rows lookback df)))]"
    unfolding fibonacci_levels_def Let_def hi lo by (simp add: long)
  from keys seven
    levels_decreasing [of "Min (set (map low (tail_rows lookback df)))"
                          "Max (set (map high (tail_rows lookback df)))"]
  show ?thesis
    unfolding Let_def by blast
qed

theorem fibonacci_levels_ordered_witness:
  "(2::nat) \<le> length [bar_of 110 90 100 1000, bar_of 100 95 98 2000] \<and> (2::nat) \<le> 2
   \<and> map_of (fibonacci_levels [bar_of 110 90 100 1000, bar_of 100 95 98 2000] 2) ''0.0'' = Some (Fin 110)
   \<and> map_of (fibonacci_levels [bar_of 110 90 100 1000, bar_of 100 95 98 2000] 2) ''0.5'' = Some (Fin 100)
   \<and> map_of (fibonacci_levels [bar_of 110 90 100 1000, bar_of 100 95 98 2000] 2) ''1.0'' = Some (Fin 90)
   \<and> sorted_wrt (\<ge>) [110, 110 - 0.236 * (110 - 90), 110 - 0.382 * (110 - 90),
          110 - 0.5 * (110 - 90), 110 - 0.618 * (110 - 90), 110 - 0.786 * (110 - 90), 90 :: real]"
proof -
  have 1: "(2::nat) \<le> length [bar_of 110 90 100 1000, bar_of 100 95 98 2000]" by simp
  have 2: "(2::nat) \<le> 2" by simp
  have 3: "Min (set (map low (tail_rows 2 [bar_of 110 90 100 1000, bar_of 100 95 98 2000])))
         \<le> Max (set (map high (tail_rows 2 [bar_of 110 90 100 1000, bar_of 100 95 98 2000])))"
    by (simp add: tail_rows_def bar_of_def)
  from fibonacci_levels_ordered [OF 1 2] 3 show ?thesis
    by (simp add: Let_def tail_rows_def bar_of_def)
qed


section \<open>Seeding of the exponential moving averages\<close>

lemma ewm_rec_step:
  "i < length xs \<Longrightarrow>
   (x # ewm_rec a x xs) ! Suc i = a * xs ! i + (1 - a) * (x # ewm_rec a x xs) ! i"
proof (induction xs arbitrary: x i)
  case Nil
  then show ?case by simp
next
  case (Cons y ys)
  show ?case
  proof (cases i)
    case 0
    then show ?thesis by simp
  next
    case (Suc k)
    with Cons.prems have "k < length ys" by simp
    from Cons.IH [OF this, of "a * y + (1 - a) * x"] Suc show ?thesis
      by simp
  qed
qed

lemma ewm_noadjust_seed: "xs \<noteq> [] \<Longrightarrow> ewm_mean False n xs ! 0 = xs ! 0"
  by (cases xs) (simp_all add: ewm_mean_def)

lemma ewm_noadjust_step:
  assumes "1 \<le> i" "i < length xs"
  shows "ewm_mean False n xs ! i
         = alpha_of_span n * xs ! i + (1 - alpha_of_span n) * ewm_mean False n xs ! (i - 1)"
proof -
  from assms obtain x rest where xs: "xs = x # rest"
    by (cases xs) auto
  from assms obtain k where i: "i = Suc k"
    by (cases i) auto
  with assms xs have "k < length rest" by simp
  from ewm_rec_step [OF this, of x "alpha_of_span n"] show ?thesis
    by (simp add: xs i ewm_mean_def)
qed

lemma ewm_adj_closed:
  "i < length xs \<Longrightarrow>
   ewm_adj a num den xs ! i
     = ((\<Sum>j\<le>i. (1 - a) ^ j * xs ! (i - j)) + (1 - a) ^ Suc i * num)
       / ((\<Sum>j\<le>i. (1 - a) ^ j) + (1 - a) ^ Suc i * den)"
proof (induction xs arbitrary: num den i)
  case Nil
  then show ?case by simp
next
  case (Cons x xs)
  show ?case
  proof (cases i)
    case 0
    then show ?thesis by (simp add: add.commute)
  next
    case (Suc k)
    with Cons.prems have k: "k < length xs" by simp
    have nths: "(\<Sum>j\<le>k. (1 - a) ^ j * (x # xs) ! (Suc k - j)) = (\<Sum>j\<le>k. (1 - a) ^ j * xs ! (k - j))"
      by (rule sum.cong) (simp_all add: Suc_diff_le)
    have "ewm_adj a num den (x # xs) ! i
          = ewm_adj a (x + (1 - a) * num) (1 + (1 - a) * den) xs ! k"
      by (simp add: Suc)
    also have "\<dots> = ((\<Sum>j\<le>k. (1 - a) ^ j * xs ! (k - j)) + (1 - a) ^ Suc k * (x + (1 - a) * num))
       / ((\<Sum>j\<le>k. (1 - a) ^ j) + (1 - a) ^ Suc k * (1 + (1 - a) * den))"
      by (rule Cons.IH [OF k])
    also have "\<dots> = ((\<Sum>j\<le>Suc k. (1 - a) ^ j * (x # xs) ! (Suc k - j)) + (1 - a) ^ Suc (Suc k) * num)
       / ((\<Sum>j\<le>Suc k. (1 - a) ^ j) + (1 - a) ^ Suc (Suc k) * den)"
      by (simp add: nths algebra_simps)
    finally show ?thesis by (simp add: Suc)
  qed
qed

lemma ewm_adjust_closed:
  "i < length xs \<Longrightarrow>
   ewm_mean True n xs ! i
     = (\<Sum>j\<le>i. (1 - alpha_of_span n) ^ j * xs ! (i - j)) / (\<Sum>j\<le>i. (1 - alpha_of_span n) ^ j)"
  by (simp add: ewm_mean_def ewm_adj_closed)

lemma Fin_recurrence:
  "fadd (fmul (Fin a) (Fin x)) (fmul (Fin b) (Fin y)) = Fin (a * x + b * y)"
  by simp

text \<open>
  C3, as the code has it. With \<open>\<alpha> = 2/(span+1)\<close> and spans of at least 1: the EMAs of
  tradingbot.py (\<open>ewm(span, adjust=False)\<close>: the two EMAs of the MACD line, the MACD
  signal line and the two volume EMAs of the CVO) start at the first value and satisfy
  \<open>EMA[i] = \<alpha>\<cdot>value[i] + (1-\<alpha>)\<cdot>EMA[i-1]\<close> for \<open>i \<ge> 1\<close>. The EMAs of app10.py
  (\<open>ewm(span)\<close>, pandas' default adjusted weights: EMA9, EMA21, EMA50 of the close, the
  two EMAs of its MACD line and the signal line of that MACD) are the weighted averages
  \<open>EMA[i] = (\<Sum>j\<le>i. (1-\<alpha>)\<^sup>j\<cdot>value[i-j]) / (\<Sum>j\<le>i. (1-\<alpha>)\<^sup>j)\<close>: they start at the
  first value as well, but they do not follow the recurrence.
\<close>

theorem ema_recurrence:
  assumes "1 \<le> sp" and "1 \<le> fast" and "1 \<le> slow" and "1 \<le> signal"
    and "1 \<le> short" and "1 \<le> long"
  shows "(let ema = ewm_mean False sp xs; a = alpha_of_span sp in
            (xs \<noteq> [] \<longrightarrow> ema ! 0 = xs ! 0)
            \<and> (\<forall>i<length xs. 1 \<le> i \<longrightarrow> ema ! i = a * xs ! i + (1 - a) * ema ! (i - 1)))
       \<and> (let (macd, macd_signal, macd_hist) = add_macd df fast slow signal;
              ema_fast = ewm_mean False fast (map close df);
              ema_slow = ewm_mean False slow (map close df);
              a = alpha_of_span signal
          in \<forall>i<length df.
               macd ! i = Fin (ema_fast ! i - ema_slow ! i)
               \<and> macd_signal ! i =
                   (if i = 0 then macd ! 0
                    else fadd (fmul (Fin a) (macd ! i)) (fmul (Fin (1 - a)) (macd_signal ! (i - 1)))))
       \<and> (let (cvo, vol_short, vol_long) = add_cvo df short long;
              a = alpha_of_span short; b = alpha_of_span long
          in \<forall>i<length df.
               vol_short ! i =
                   (if i = 0 then Fin (volume (df ! 0))
                    else fadd (fmul (Fin a) (Fin (volume (df ! i))))
                              (fmul (Fin (1 - a)) (vol_short ! (i - 1))))
               \<and> vol_long ! i =
                   (if i = 0 then Fin (volume (df ! 0))
                    else fadd (fmul (Fin b) (Fin (volume (df ! i))))
                              (fmul (Fin (1 - b)) (vol_long ! (i - 1)))))
       \<and> (let a = alpha_of_span sp in
            \<forall>i<length df.
               app10_ema sp df ! i =
                 Fin ((\<Sum>j\<le>i. (1 - a) ^ j * close (df ! (i - j))) / (\<Sum>j\<le>i. (1 - a) ^ j)))
       \<and> (let (macd, signal) = app10_macd df;
              line = map2 (-) (ewm_mean True 12 (map close df)) (ewm_mean True 26 (map close df));
              a = alpha_of_span 12; b = alpha_of_span 26; c = alpha_of_span 9
          in \<forall>i<length df.
               macd ! i = Fin (line ! i)
               \<and> line ! i =
                   (\<Sum>j\<le>i. (1 - a) ^ j * close (df ! (i - j))) / (\<Sum>j\<le>i. (1 - a) ^ j)
                   - (\<Sum>j\<le>i. (1 - b) ^ j * close (df ! (i - j))) / (\<Sum>j\<le>i. (1 - b) ^ j)
               \<and> signal ! i =
                   Fin ((\<Sum>j\<le>i. (1 - c) ^ j * line ! (i - j)) / (\<Sum>j\<le>i. (1 - c) ^ j)))"
proof -
  have A: "(xs \<noteq> [] \<longrightarrow> ewm_mean False n xs ! 0 = xs ! 0)
            \<and> (\<forall>i<length xs. 1 \<le> i \<longrightarrow>
                  ewm_mean False n xs ! i
                  = alpha_of_span n * xs ! i + (1 - alpha_of_span n) * ewm_mean False n xs ! (i - 1))"
    for n and xs :: "real list"
    using ewm_noadjust_seed [of xs n] ewm_noadjust_step [of _ xs n] by blast
  have out: "map Fin (ewm_mean False n xs) ! i =
                   (if i = 0 then Fin (xs ! 0)
                    else fadd (fmul (Fin (alpha_of_span n)) (Fin (xs ! i)))
                              (fmul (Fin (1 - alpha_of_span n)) (map Fin (ewm_mean False n xs) ! (i - 1))))"
    if "i < length xs" for n i and xs :: "real list"
  proof (cases "i = 0")
    case True
    with that show ?thesis
      using ewm_noadjust_seed [of xs n] by auto
  next
    case False
    with that show ?thesis
      using ewm_noadjust_step [of i xs n] by simp
  qed
  define m where "m = map2 (-) (ewm_mean False fast (map close df)) (ewm_mean False slow (map close df))"
  have len_m: "length m = length df"
    by (simp add: m_def)
  have B: "map Fin m ! i
             = Fin (ewm_mean False fast (map close df) ! i - ewm_mean False slow (map close df) ! i)
           \<and> map Fin (ewm_mean False signal m) ! i =
                   (if i = 0 then map Fin m ! 0
                    else fadd (fmul (Fin (alpha_of_span signal)) (map Fin m ! i))
                              (fmul (Fin (1 - alpha_of_span signal))
                                    (map Fin (ewm_mean False signal m) ! (i - 1))))"
    if "i < length df" for i
  proof -
    from that have "m ! i = ewm_mean False fast (map close df) ! i - ewm_mean False slow (map close df) ! i"
      by (simp add: m_def)
    moreover from that len_m have "0 < length m"
      by auto
    with that len_m have "map Fin m ! i = Fin (m ! i)" "map Fin m ! 0 = Fin (m ! 0)"
      by simp_all
    moreover from that len_m have "i < length m" by simp
    ultimately show ?thesis
      using out [of i m signal] by simp
  qed
  have C: "map Fin (ewm_mean False n (map volume df)) ! i =
                   (if i = 0 then Fin (volume (df ! 0))
                    else fadd (fmul (Fin (alpha_of_span n)) (Fin (volume (df ! i))))
                              (fmul (Fin (1 - alpha_of_span n))
                                    (map Fin (ewm_mean False n (map volume df)) ! (i - 1))))"
    if "i < length df" for i n
  proof -
    from that have "0 < length df" by auto
    then have "map volume df ! 0 = volume (df ! 0)" by simp
    with that out [of i "map volume df" n] show ?thesis by simp
  qed
  have closes: "ewm_mean True n (map close df) ! i =
                 (\<Sum>j\<le>i. (1 - alpha_of_span n) ^ j * close (df ! (i - j)))
                 / (\<Sum>j\<le>i. (1 - alpha_of_span n) ^ j)"
    if "i < length df" for i n
  proof -
    have "(\<Sum>j\<le>i. (1 - alpha_of_span n) ^ j * map close df ! (i - j))
          = (\<Sum>j\<le>i. (1 - alpha_of_span n) ^ j * close (df ! (i - j)))"
      by (rule sum.cong) (use that in simp_all)
    with that ewm_adjust_closed [of i "map close df" n] show ?thesis
      by simp
  qed
  have D: "app10_ema sp df ! i =
                 Fin ((\<Sum>j\<le>i. (1 - alpha_of_span sp) ^ j * close (df ! (i - j)))
                      / (\<Sum>j\<le>i. (1 - alpha_of_span sp) ^ j))"
    if "i < length df" for i
    using that closes [OF that, of sp] by (simp add: app10_ema_def)
  define line where
    "line = map2 (-) (ewm_mean True 12 (map close df)) (ewm_mean True 26 (map close df))"
  have len_line: "length line = length df"
    by (simp add: line_def)
  have E: "map Fin line ! i = Fin (line ! i)
           \<and> line ! i =
               (\<Sum>j\<le>i. (1 - alpha_of_span 12) ^ j * close (df ! (i - j)))
                 / (\<Sum>j\<le>i. (1 - alpha_of_span 12) ^ j)
               - (\<Sum>j\<le>i. (1 - alpha_of_span 26) ^ j * close (df ! (i - j)))
                 / (\<Sum>j\<le>i. (1 - alpha_of_span 26) ^ j)
           \<and> map Fin (ewm_mean True 9 line) ! i =
               Fin ((\<Sum>j\<le>i. (1 - alpha_of_span 9) ^ j * line ! (i - j))
                    / (\<Sum>j\<le>i. (1 - alpha_of_span 9) ^ j))"
    if "i < length df" for i
  proof -
    from that len_line have i: "i < length line" by simp
    then have "map Fin line ! i = Fin (line ! i)"
      by simp
    moreover from that have "line ! i
        = ewm_mean True 12 (map close df) ! i - ewm_mean True 26 (map close df) ! i"
      by (simp add: line_def)
    moreover from i have "map Fin (ewm_mean True 9 line) ! i = Fin (ewm_mean True 9 line ! i)"
      by simp
    ultimately show ?thesis
      using closes [OF that, of 12] closes [OF that, of 26] ewm_adjust_closed [OF i, of 9]
      by simp
  qed
  from A [of xs sp] B C D E show ?thesis
    unfolding add_macd_def add_cvo_def app10_macd_def Let_def prod.case
      m_def [symmetric] line_def [symmetric]
    by blast
qed

theorem ema_recurrence_witness:
  "(1::nat) \<le> 9
   \<and> ewm_mean False 9 [0, 9] = [0, 9 / 5]
   \<and> (9 / 5 :: real) = alpha_of_span 9 * 9 + (1 - alpha_of_span 9) * 0
   \<and> app10_ema 9 [bar_of 0 0 0 0, bar_of 9 9 9 0] ! 1 = Fin ((9 + (1 - alpha_of_span 9) * 0) / (1 + (1 - alpha_of_span 9)))"
proof -
  have h: "(1::nat) \<le> 9" by simp
  from ema_recurrence [OF h h h h h h, where xs = "[0, 9]" and df = "[bar_of 0 0 0 0, bar_of 9 9 9 0]"]
  show ?thesis
    by (simp add: Let_def split_def alpha_of_span_def ewm_mean_def bar_of_def)
qed

text \<open>
  As the specification states it, the property fails for the standalone EMAs of
  app10.py: on fifty bars with closes 0, 9, 9, ... the column EMA9 is 0 and then 5, where
  the recurrence with \<open>\<alpha> = 1/5\<close> gives \<open>0.2\<cdot>9 + 0.8\<cdot>0 = 1.8\<close>.
\<close>

theorem ema_recurrence_counterexample:
  "length step_bars = 50
   \<and> app10_ema 9 step_bars ! 0 = Fin 0
   \<and> app10_ema 9 step_bars ! 1 = Fin 5
   \<and> alpha_of_span 9 * close (step_bars ! 1) + (1 - alpha_of_span 9) * 0 = 9 / 5"
  by (simp add: step_bars_def app10_ema_def ewm_mean_def alpha_of_span_def bar_of_def)


section \<open>The RSI when the average loss is zero\<close>

lemma length_deltas [simp]: "length (deltas xs) = length xs - 1"
  by (simp add: deltas_def)

lemma length_diff_series [simp]: "length (diff_series xs) = length xs"
  by (cases xs) (simp_all add: diff_series_def)

lemma diff_series_deltas: "xs \<noteq> [] \<Longrightarrow> diff_series xs = NaN # map Fin (deltas xs)"
  by (simp add: diff_series_def deltas_def split_def)

lemma rolling_NaN_Cons:
  assumes "1 \<le> w" "i < Suc (length ys)"
  shows "rolling w agg (NaN # map Fin ys) ! i
         = (if i < w then NaN else agg (window_at w ys (i - 1)))"
proof (cases "i < w")
  case True
  show ?thesis
  proof (cases "i + 1 < w")
    case True
    with assms show ?thesis by (simp add: rolling_nth)
  next
    case False
    with True have "i + 1 - w = 0" by simp
    with assms have "window_at w (NaN # map Fin ys) i = NaN # take (w - 1) (map Fin ys)"
      by (cases w) (simp_all add: window_at_def)
    with True assms show ?thesis by (simp add: rolling_nth)
  qed
next
  case False
  with assms obtain k where k: "i + 1 - w = Suc k" "k = i - 1 + 1 - w"
    by (cases "i + 1 - w") auto
  then have "window_at w (NaN # map Fin ys) i = map Fin (window_at w ys (i - 1))"
    by (simp add: window_at_def take_map drop_map)
  with False assms show ?thesis by (simp add: rolling_nth)
qed

lemma avg_gain_nth:
  assumes "1 \<le> w" "i < length df"
  shows "avg_gain w df ! i
         = (if i < w then NaN
            else Fin (mean (window_at w (map (\<lambda>d. max d 0) (deltas (map close df))) (i - 1))))"
proof -
  from assms have ne: "map close df \<noteq> []" by auto
  have g: "map clip_lower0 (diff_series (map close df))
           = NaN # map Fin (map (\<lambda>d. max d 0) (deltas (map close df)))"
    by (simp add: diff_series_deltas [OF ne])
  have "window_at w (map (\<lambda>d. max d 0) (deltas (map close df))) (i - 1) \<noteq> []" if "\<not> i < w"
  proof -
    from that assms have "w \<le> i - 1 + 1" "i - 1 < length (map (\<lambda>d. max d 0) (deltas (map close df)))"
      by simp_all
    from length_window_at [OF this] assms(1) show ?thesis
      by auto
  qed
  moreover have "rolling w agg_mean (NaN # map Fin (map (\<lambda>d. max d 0) (deltas (map close df)))) ! i
      = (if i < w then NaN
         else agg_mean (window_at w (map (\<lambda>d. max d 0) (deltas (map close df))) (i - 1)))"
    by (rule rolling_NaN_Cons) (use assms in simp_all)
  ultimately show ?thesis
    unfolding avg_gain_def g by (simp add: agg_mean_def)
qed

lemma avg_loss_nth:
  assumes "1 \<le> w" "i < length df"
  shows "avg_loss w df ! i
         = (if i < w then NaN
            else Fin (mean (window_at w (map (\<lambda>d. - min d 0) (deltas (map close df))) (i - 1))))"
proof -
  from assms have ne: "map close df \<noteq> []" by auto
  have g: "map (\<lambda>d. fneg (clip_upper0 d)) (diff_series (map close df))
           = NaN # map Fin (map (\<lambda>d. - min d 0) (deltas (map close df)))"
    by (simp add: diff_series_deltas [OF ne])
  have "window_at w (map (\<lambda>d. - min d 0) (deltas (map close df))) (i - 1) \<noteq> []" if "\<not> i < w"
  proof -
    from that assms have "w \<le> i - 1 + 1" "i - 1 < length (map (\<lambda>d. - min d 0) (deltas (map close df)))"
      by simp_all
    from length_window_at [OF this] assms(1) show ?thesis
      by auto
  qed
  moreover have "rolling w agg_mean (NaN # map Fin (map (\<lambda>d. - min d 0) (deltas (map close df)))) ! i
      = (if i < w then NaN
         else agg_mean (window_at w (map (\<lambda>d. - min d 0) (deltas (map close df))) (i - 1)))"
    by (rule rolling_NaN_Cons) (use assms in simp_all)
  ultimately show ?thesis
    unfolding avg_loss_def g by (simp add: agg_mean_def)
qed

lemma length_avg [simp]: "length (avg_gain w df) = length df" "length (avg_loss w df) = length df"
  by (simp_all add: avg_gain_def avg_loss_def)

lemma rsi_nth:
  "i < length df \<Longrightarrow>
   rsi_series w df ! i
     = fsub (Fin 100) (fdiv (Fin 100) (fadd (Fin 1) (fdiv (avg_gain w df ! i) (avg_loss w df ! i))))"
  by (simp add: rsi_series_def Let_def avg_gain_def avg_loss_def)

lemma length_rsi_series [simp]: "length (rsi_series w df) = length df"
  by (simp add: rsi_series_def Let_def)

lemma mean_nonneg: "\<forall>x\<in>set xs. 0 \<le> x \<Longrightarrow> 0 \<le> mean xs"
  by (simp add: mean_def sum_list_nonneg)

lemma window_at_subset: "set (window_at w xs i) \<subseteq> set xs"
  unfolding window_at_def by (meson in_set_dropD in_set_takeD subsetI)

lemma rsi_at_zero_loss:
  assumes "1 \<le> w" "i < length df" "avg_loss w df ! i = Fin 0"
  shows "w \<le> i \<and> (\<exists>g. avg_gain w df ! i = Fin g \<and> 0 \<le> g
                       \<and> rsi_series w df ! i = (if 0 < g then Fin 100 else NaN))"
proof -
  from assms have wi: "\<not> i < w"
    by (auto simp: avg_loss_nth)
  let ?g = "mean (window_at w (map (\<lambda>d. max d 0) (deltas (map close df))) (i - 1))"
  from wi assms have g: "avg_gain w df ! i = Fin ?g"
    by (simp add: avg_gain_nth)
  have "0 \<le> ?g"
    by (rule mean_nonneg) (use window_at_subset in fastforce)
  moreover have "rsi_series w df ! i = (if 0 < ?g then Fin 100 else NaN)"
    using \<open>0 \<le> ?g\<close> by (simp add: rsi_nth [OF assms(2)] g assms(3) inf_of_sign_def)
  ultimately show ?thesis
    using wi g by auto
qed

lemma deltas_constant:
  assumes "\<forall>x\<in>set xs. x = c"
  shows "deltas xs = replicate (length xs - 1) 0"
proof (rule nth_equalityI)
  show "length (deltas xs) = length (replicate (length xs - 1) (0::real))"
    by simp
next
  fix j assume "j < length (deltas xs)"
  then have j: "j + 1 < length xs" by simp
  with assms have "xs ! (j + 1) = c" "xs ! j = c"
    by (simp_all add: all_set_conv_all_nth)
  with j show "deltas xs ! j = replicate (length xs - 1) 0 ! j"
    by (simp add: deltas_def nth_tl nth_butlast)
qed

lemma mean_window_zeros: "mean (window_at w (replicate n 0) i) = 0"
  by (simp add: mean_def window_at_def sum_list_replicate)

lemma rsi_constant:
  assumes "1 \<le> w" "\<forall>b\<in>set df. close b = c" "i < length df"
  shows "rsi_series w df ! i = NaN"
proof -
  from assms(2) have "deltas (map close df) = replicate (length df - 1) 0"
    using deltas_constant [of "map close df" c] by simp
  then have "avg_gain w df ! i = (if i < w then NaN else Fin 0)"
    "avg_loss w df ! i = (if i < w then NaN else Fin 0)"
    using assms(1,3) by (simp_all add: avg_gain_nth avg_loss_nth mean_window_zeros)
  then show ?thesis
    by (simp add: rsi_nth [OF assms(3)])
qed

text \<open>
  C4, as the code has it. app10.py has no zero-loss rule: it divides the two rolling means
  and lets the float arithmetic decide. At an index where the averages are available and
  the average loss is 0, the RSI is 100 when the average gain is positive (\<open>RS\<close> is
  infinite and \<open>100/(1+RS)\<close> is 0), and it is undefined (NaN) when the average gain is 0
  as well (\<open>RS = 0/0\<close>); in particular the RSI of a table with constant close is NaN at
  every index.
\<close>

theorem rsi_zero_loss:
  assumes "1 \<le> w" and "i < length df"
  shows "(avg_loss w df ! i = Fin 0 \<longrightarrow>
            w \<le> i \<and> (\<exists>g. avg_gain w df ! i = Fin g \<and> 0 \<le> g
                          \<and> rsi_series w df ! i = (if 0 < g then Fin 100 else NaN)))
       \<and> ((\<forall>b\<in>set df. close b = c) \<longrightarrow> rsi_series w df ! i = NaN)"
  using rsi_at_zero_loss [OF assms] rsi_constant [OF assms(1) _ assms(2)] by blast

lemma rising_avg: "avg_loss 2 rising_bars ! 2 = Fin 0" "avg_gain 2 rising_bars ! 2 = Fin 1"
  by (simp_all add: avg_loss_def avg_gain_def rising_bars_def bar_of_def diff_series_def
        rolling_def window_at_def agg_mean_def mean_def upt_rec)

theorem rsi_zero_loss_witness:
  "(1::nat) \<le> 2 \<and> (2::nat) < length rising_bars \<and> avg_loss 2 rising_bars ! 2 = Fin 0
   \<and> avg_gain 2 rising_bars ! 2 = Fin 1 \<and> rsi_series 2 rising_bars ! 2 = Fin 100"
proof -
  have 1: "(1::nat) \<le> 2" by simp
  have 2: "(2::nat) < length rising_bars" by (simp add: rising_bars_def)
  from rsi_zero_loss [OF 1 2, of 0] rising_avg 1 2 show ?thesis
    by auto
qed

text \<open>
  As the specification states it, the property fails on fifty bars with a constant
  close: at the last index both averages are 0 and the RSI is NaN, not 100.
\<close>

theorem rsi_zero_loss_counterexample:
  "length flat_bars = 50 \<and> avg_gain 14 flat_bars ! 49 = Fin 0 \<and> avg_loss 14 flat_bars ! 49 = Fin 0
   \<and> rsi_series 14 flat_bars ! 49 = NaN"
proof -
  have c: "\<forall>b\<in>set flat_bars. close b = 100"
    by (simp add: flat_bars_def bar_of_def)
  have len: "length flat_bars = 50"
    by (simp add: flat_bars_def)
  have "deltas (map close flat_bars) = replicate (length flat_bars - 1) 0"
    using c deltas_constant [of "map close flat_bars" 100] by simp
  then have "avg_gain 14 flat_bars ! 49 = Fin 0" "avg_loss 14 flat_bars ! 49 = Fin 0"
    by (simp_all add: avg_gain_nth avg_loss_nth len mean_window_zeros)
  moreover have "rsi_series 14 flat_bars ! 49 = NaN"
    by (rule rsi_constant [OF _ c]) (simp_all add: len)
  ultimately show ?thesis
    using len by simp
qed


section \<open>The Bollinger band width at a zero close\<close>

lemma bb_width_nth:
  "i < length df \<Longrightarrow> length bb60_h = length df \<Longrightarrow> length bb60_l = length df \<Longrightarrow>
   bb_width bb60_h bb60_l df ! i = fdiv (fsub (bb60_h ! i) (bb60_l ! i)) (Fin (close (df ! i)))"
  by (simp add: bb_width_def)

text \<open>
  C7, as the code has it. The division \<open>(bb60_h - bb60_l) / df["Close"]\<close> has no guard
  and raises nothing. Where the close is 0 and both bands are finite the width is \<open>+inf\<close>
  when the upper band is above the lower one (\<open>-inf\<close> when it is below) and NaN only
  when the two bands are equal; it is NaN when a band is NaN.
\<close>

theorem bb_width_zero_close:
  assumes "i < length df" and "length bb60_h = length df" and "length bb60_l = length df"
    and "close (df ! i) = 0"
  shows "(\<forall>u l. bb60_h ! i = Fin u \<and> bb60_l ! i = Fin l \<longrightarrow>
            bb_width bb60_h bb60_l df ! i
              = (if l < u then PInf else if u < l then NInf else NaN))
       \<and> (bb60_h ! i = NaN \<or> bb60_l ! i = NaN \<longrightarrow> bb_width bb60_h bb60_l df ! i = NaN)"
  using assms by (auto simp: bb_width_nth inf_of_sign_def)

theorem bb_width_zero_close_witness:
  "bb_width [NaN, Fin 3, Fin 2] [NaN, Fin 1, Fin 2]
            [bar_of 2 2 2 1, bar_of 2 0 0 1, bar_of 2 0 0 1] ! 1 = PInf
   \<and> bb_width [NaN, Fin 3, Fin 2] [NaN, Fin 1, Fin 2]
            [bar_of 2 2 2 1, bar_of 2 0 0 1, bar_of 2 0 0 1] ! 2 = NaN"
proof -
  let ?h = "[NaN, Fin 3, Fin 2]" and ?l = "[NaN, Fin 1, Fin 2]"
  let ?df = "[bar_of 2 2 2 1, bar_of 2 0 0 1, bar_of 2 0 0 1]"
  have c: "close (?df ! 1) = 0" "close (?df ! 2) = 0"
    by (simp_all add: bar_of_def)
  have "bb_width ?h ?l ?df ! 1 = PInf"
    using bb_width_zero_close [of 1 ?df ?h ?l] c by simp
  moreover have "bb_width ?h ?l ?df ! 2 = NaN"
    using bb_width_zero_close [of 2 ?df ?h ?l] c by simp
  ultimately show ?thesis
    by simp
qed

text \<open>
  As the specification states it, the property fails on a table of 160 bars whose last
  close is 0, with bands 3 and 1 at the last index: the width there is \<open>+inf\<close>, not NaN.
\<close>

theorem bb_width_zero_close_counterexample:
  "length zero_close_bars = 160 \<and> close (zero_close_bars ! 159) = 0
   \<and> bb_width (replicate 59 NaN @ replicate 101 (Fin 3)) (replicate 59 NaN @ replicate 101 (Fin 1))
        zero_close_bars ! 159 = PInf"
proof -
  have len: "length zero_close_bars = 160"
    by (simp add: zero_close_bars_def)
  have c: "close (zero_close_bars ! 159) = 0"
    by (simp add: zero_close_bars_def nth_append bar_of_def)
  have "bb_width (replicate 59 NaN @ replicate 101 (Fin 3)) (replicate 59 NaN @ replicate 101 (Fin 1))
        zero_close_bars ! 159
        = fdiv (fsub ((replicate 59 NaN @ replicate 101 (Fin 3)) ! 159)
                     ((replicate 59 NaN @ replicate 101 (Fin 1)) ! 159))
               (Fin (close (zero_close_bars ! 159)))"
    by (rule bb_width_nth) (simp_all add: len)
  also have "\<dots> = PInf"
    by (simp add: c nth_append inf_of_sign_def)
  finally show ?thesis
    using len c by simp
qed


section \<open>Short inputs\<close>

lemma rolling_short:
  assumes "length xs < w"
  shows "rolling w agg xs = replicate (length xs) NaN"
proof (rule nth_equalityI)
  show "length (rolling w agg xs) = length (replicate (length xs) NaN)"
    by simp
next
  fix i assume "i < length (rolling w agg xs)"
  with assms show "rolling w agg xs ! i = replicate (length xs) NaN ! i"
    by (simp add: rolling_warmup)
qed

lemma map2_NaN_left: "length ys = n \<Longrightarrow> map2 fadd (replicate n NaN) ys = replicate n NaN"
  by (rule nth_equalityI) simp_all

lemma map2_fsub_NaN_right: "length xs = n \<Longrightarrow> map2 fsub xs (replicate n NaN) = replicate n NaN"
  by (rule nth_equalityI) simp_all

lemma map2_fsub_NaN_left: "length ys = n \<Longrightarrow> map2 fsub (replicate n NaN) ys = replicate n NaN"
  by (rule nth_equalityI) simp_all

lemma bollinger_short:
  assumes "length df < period"
  shows "add_bollinger df period k
         = (replicate (length df) NaN, replicate (length df) NaN, replicate (length df) NaN)"
proof -
  from assms have "rolling period agg_mean (column close df) = replicate (length df) NaN"
    "rolling period agg_std (column close df) = replicate (length df) NaN"
    using rolling_short [of "column close df" period] by simp_all
  then show ?thesis
    by (simp add: add_bollinger_def Let_def map2_NaN_left map2_fsub_NaN_left)
qed

lemma dpo_short:
  assumes "length df < period"
  shows "add_dpo df period = replicate (length df) NaN"
proof -
  from assms have "rolling period agg_mean (column close df) = replicate (length df) NaN"
    using rolling_short [of "column close df" period] by simp
  then show ?thesis
    by (simp add: add_dpo_alt map2_fsub_NaN_right)
qed

lemma tradingbot_runs: "df \<noteq> [] \<Longrightarrow> \<not> isl (tradingbot p df)"
  by (simp add: tradingbot_def Let_def split_def)

text \<open>
  C2, as the code has it. The indicator functions of tradingbot.py do not fail on a short
  table; they return a result without defined values. On fewer than 2 bars
  \<open>fibonacci_levels\<close> returns the empty dictionary and \<open>add_adx\<close> returns three series of
  NaN of the length of the table; on fewer than \<open>period\<close> bars \<open>add_bollinger\<close> and
  \<open>add_dpo\<close> return series of NaN of that length; the script stops with an error message
  only when the table is empty and computes every indicator as soon as there is one bar.
  app10.py and app11.py do stop with an error message, before any indicator is computed,
  when fewer than 50, respectively 160, bars were loaded; that covers every table shorter
  than the window of their RSI (14, respectively 20).
\<close>

theorem short_series_results:
  "(length df < 2 \<longrightarrow>
      fibonacci_levels df lookback = []
      \<and> add_adx df period
          = (replicate (length df) NaN, replicate (length df) NaN, replicate (length df) NaN))
   \<and> (length df < period \<longrightarrow>
      add_bollinger df period k
          = (replicate (length df) NaN, replicate (length df) NaN, replicate (length df) NaN)
      \<and> add_dpo df period = replicate (length df) NaN)
   \<and> (df \<noteq> [] \<longrightarrow> \<not> isl (tradingbot p df))
   \<and> tradingbot p [] = Inl NoData
   \<and> (length df < 50 \<longrightarrow> app10 df = Inl NotEnoughData)
   \<and> (length df < 160 \<longrightarrow> app11 bands df = Inl NotEnoughData)"
proof -
  have "length df < 2 \<longrightarrow> fibonacci_levels df lookback = []"
    by (simp add: fibonacci_levels_def)
  moreover have "tradingbot p [] = Inl NoData"
    by (simp add: tradingbot_def)
  moreover have "length df < 50 \<longrightarrow> app10 df = Inl NotEnoughData"
    by (simp add: app10_def)
  moreover have "length df < 160 \<longrightarrow> app11 bands df = Inl NotEnoughData"
    by (simp add: app11_def MIN_BARS_def)
  ultimately show ?thesis
    using add_adx_short [of df period] bollinger_short [of df period k] dpo_short [of df period]
      tradingbot_runs [of df p]
    by blast
qed

theorem short_series_results_witness:
  "fibonacci_levels [bar_of 110 90 100 1000] 50 = []
   \<and> add_bollinger [bar_of 110 90 100 1000] 20 2 = ([NaN], [NaN], [NaN])
   \<and> add_dpo [bar_of 110 90 100 1000] 20 = [NaN]
   \<and> app10 [bar_of 110 90 100 1000] = Inl NotEnoughData
   \<and> app11 nan_bands [bar_of 110 90 100 1000] = Inl NotEnoughData"
  using short_series_results [of "[bar_of 110 90 100 1000]" 50 20 2 default_params nan_bands]
  by simp

text \<open>
  As the specification states it, the property fails on a table of one bar: \<open>add_adx\<close>
  returns three series holding one NaN each, and the script goes on to its end instead of
  stopping with an error.
\<close>

theorem short_series_results_counterexample:
  "add_adx [bar_of 110 90 100 1000] 14 = ([NaN], [NaN], [NaN])
   \<and> \<not> isl (tradingbot default_params [bar_of 110 90 100 1000])"
  by (simp add: add_adx_def tradingbot_def Let_def split_def)


section \<open>MACD parameters\<close>

lemma ewm_rec_zeros: "ewm_rec a 0 (replicate n 0) = replicate n 0"
  by (induction n) simp_all

lemma ewm_noadjust_zeros: "ewm_mean False s (replicate n 0) = replicate n 0"
  by (cases n) (simp_all add: ewm_mean_def ewm_rec_zeros)

lemma map2_minus_self: "map2 (-) xs xs = replicate (length xs) (0::real)"
  by (rule nth_equalityI) simp_all

lemma map2_minus_zeros: "map2 (-) (replicate n 0) (replicate n 0) = replicate n (0::real)"
  using map2_minus_self [of "replicate n 0"] by simp

text \<open>
  C6, as the code has it. \<open>add_macd\<close> checks nothing: for every \<open>fast\<close>, \<open>slow\<close> and
  \<open>signal\<close>, also when \<open>fast \<ge> slow\<close>, it returns the MACD line
  \<open>EMA(close, fast) - EMA(close, slow)\<close>, its signal line and the histogram
  \<open>macd - signal\<close>, each of the length of the table and finite at every index; with
  \<open>fast = slow\<close> the three series are zero everywhere. The script computes them on every
  non-empty table, whatever the order of the two spans.
\<close>

theorem macd_any_order:
  "(let (macd, macd_signal, macd_hist) = add_macd df fast slow signal in
      length macd = length df \<and> length macd_signal = length df \<and> length macd_hist = length df
      \<and> (\<forall>i<length df.
            macd ! i = Fin (ewm_mean False fast (map close df) ! i
                            - ewm_mean False slow (map close df) ! i)
            \<and> is_fin (macd_signal ! i)
            \<and> macd_hist ! i = fsub (macd ! i) (macd_signal ! i)))
   \<and> (fast = slow \<longrightarrow>
        add_macd df fast slow signal
          = (replicate (length df) (Fin 0), replicate (length df) (Fin 0),
             replicate (length df) (Fin 0)))
   \<and> (df \<noteq> [] \<longrightarrow>
        (case tradingbot p df of
           Inl e \<Rightarrow> False
         | Inr t \<Rightarrow> (t_macd t, t_macd_signal t, t_macd_hist t)
                     = add_macd df (p_macd_fast p) (p_macd_slow p) (p_macd_signal p)))"
proof -
  define m where "m = map2 (-) (ewm_mean False fast (map close df)) (ewm_mean False slow (map close df))"
  define sg where "sg = ewm_mean False signal m"
  have len: "length m = length df" "length sg = length df"
    by (simp_all add: m_def sg_def)
  have am: "add_macd df fast slow signal = (map Fin m, map Fin sg, map Fin (map2 (-) m sg))"
    by (simp add: add_macd_def Let_def m_def sg_def)
  have 1: "length (map Fin m) = length df \<and> length (map Fin sg) = length df
      \<and> length (map Fin (map2 (-) m sg)) = length df
      \<and> (\<forall>i<length df.
            map Fin m ! i = Fin (ewm_mean False fast (map close df) ! i
                            - ewm_mean False slow (map close df) ! i)
            \<and> is_fin (map Fin sg ! i)
            \<and> map Fin (map2 (-) m sg) ! i = fsub (map Fin m ! i) (map Fin sg ! i))"
    using len by (simp add: m_def)
  have 2: "add_macd df fast slow signal
          = (replicate (length df) (Fin 0), replicate (length df) (Fin 0),
             replicate (length df) (Fin 0))" if "fast = slow"
  proof -
    from that have "m = replicate (length df) 0"
      using map2_minus_self [of "ewm_mean False slow (map close df)"] by (simp add: m_def)
    moreover from this have "sg = replicate (length df) 0"
      by (simp add: sg_def ewm_noadjust_zeros)
    ultimately show ?thesis
      by (simp add: am map2_minus_zeros)
  qed
  have 3: "(case tradingbot p df of
           Inl e \<Rightarrow> False
         | Inr t \<Rightarrow> (t_macd t, t_macd_signal t, t_macd_hist t)
                     = add_macd df (p_macd_fast p) (p_macd_slow p) (p_macd_signal p))"
    if "df \<noteq> []"
    using that by (simp add: tradingbot_def Let_def split_def)
  from 1 2 3 show ?thesis
    unfolding am Let_def prod.case by blast
qed

theorem macd_any_order_witness:
  "add_macd [bar_of 110 90 100 1000, bar_of 100 95 98 2000] 12 12 9 = ([Fin 0, Fin 0], [Fin 0, Fin 0], [Fin 0, Fin 0])"
  using macd_any_order [of "[bar_of 110 90 100 1000, bar_of 100 95 98 2000]" 12 12 9 default_params]
  by (simp add: numeral_2_eq_2)

text \<open>
  As the specification states it, the property fails with \<open>fast = 3\<close> and \<open>slow = 1\<close>:
  the function returns its three series, and the script with \<open>fast = 26\<close>, \<open>slow = 12\<close>
  does not stop with an error.
\<close>

theorem macd_any_order_counterexample:
  "add_macd [bar_of 110 90 100 1000, bar_of 100 95 98 2000, bar_of 105 97 104 500] 3 1 1
     = ([Fin 0, Fin 1, Fin (- (5 / 2))], [Fin 0, Fin 1, Fin (- (5 / 2))], [Fin 0, Fin 0, Fin 0])
   \<and> \<not> isl (tradingbot (default_params\<lparr>p_macd_fast := 26, p_macd_slow := 12\<rparr>)
               [bar_of 110 90 100 1000, bar_of 100 95 98 2000, bar_of 105 97 104 500])"
  by (simp add: add_macd_def ewm_mean_def alpha_of_span_def bar_of_def tradingbot_def Let_def split_def)


section \<open>Properties of the signal layer\<close>

lemma fold_count_filter:
  "fold (\<lambda>c b. if c then b + 1 else b) cs (n::nat) = n + length (filter id cs)"
  by (induction cs arbitrary: n) auto

lemma bullish_le_6: "bullish r \<le> 6"
proof -
  have "bullish r = length (filter id (checks_of r))"
    using fold_count_filter [of "checks_of r" 0] by (simp add: bullish_def)
  also have "\<dots> \<le> length (checks_of r)"
    by (rule length_filter_le)
  also have "\<dots> = 6"
    by (simp add: checks_of_def)
  finally show ?thesis .
qed

lemma confidence_of_values:
  "confidence_of 0 = 0" "confidence_of (Suc 0) = 16" "confidence_of 2 = 33"
  "confidence_of 3 = 50" "confidence_of 4 = 66" "confidence_of 5 = 83"
  "confidence_of 6 = 100"
  by (simp_all add: confidence_of_def checks_def)

lemma le_6_cases:
  "(b::nat) \<le> 6 \<Longrightarrow> b = 0 \<or> b = 1 \<or> b = 2 \<or> b = 3 \<or> b = 4 \<or> b = 5 \<or> b = 6"
  by arith

text \<open>
  C10. The confidence score is \<open>int((bullish/6)*100)\<close> where \<open>bullish\<close> counts the checks
  that hold among the six; it is one of 0, 16, 33, 50, 66, 83, 100, hence within
  \<open>[0, 100]\<close>; the verdict is BUY exactly when at least five checks hold and SELL exactly
  when at most two hold.
\<close>

theorem confidence_and_verdict:
  "bullish r = length (filter id (checks_of r))
   \<and> length (checks_of r) = 6
   \<and> confidence r = \<lfloor>(real (bullish r) / 6) * 100\<rfloor>
   \<and> confidence r \<in> {0, 16, 33, 50, 66, 83, 100}
   \<and> 0 \<le> confidence r \<and> confidence r \<le> 100
   \<and> (final_verdict (confidence r) = BUY) = (5 \<le> bullish r)
   \<and> (final_verdict (confidence r) = SELL) = (bullish r \<le> 2)"
proof -
  have count: "bullish r = length (filter id (checks_of r))"
    using fold_count_filter [of "checks_of r" 0] by (simp add: bullish_def)
  have len: "length (checks_of r) = 6"
    by (simp add: checks_of_def)
  have floor_eq: "confidence r = \<lfloor>(real (bullish r) / 6) * 100\<rfloor>"
    by (simp add: confidence_def confidence_of_def checks_def)
  have rest: "confidence r \<in> {0, 16, 33, 50, 66, 83, 100}
      \<and> 0 \<le> confidence r \<and> confidence r \<le> 100
      \<and> (final_verdict (confidence r) = BUY) = (5 \<le> bullish r)
      \<and> (final_verdict (confidence r) = SELL) = (bullish r \<le> 2)"
    using le_6_cases [OF bullish_le_6 [of r]]
  proof (elim disjE)
    assume "bullish r = 0"
    then show ?thesis
      by (simp add: confidence_def confidence_of_values final_verdict_def)
  next
    assume "bullish r = 1"
    then show ?thesis
      by (simp add: confidence_def confidence_of_values final_verdict_def)
  next
    assume "bullish r = 2"
    then show ?thesis
      by (simp add: confidence_def confidence_of_values final_verdict_def)
  next
    assume "bullish r = 3"
    then show ?thesis
      by (simp add: confidence_def confidence_of_values final_verdict_def)
  next
    assume "bullish r = 4"
    then show ?thesis
      by (simp add: confidence_def confidence_of_values final_verdict_def)
  next
    assume "bullish r = 5"
    then show ?thesis
      by (simp add: confidence_def confidence_of_values final_verdict_def)
  next
    assume "bullish r = 6"
    then show ?thesis
      by (simp add: confidence_def confidence_of_values final_verdict_def)
  qed
  from count len floor_eq rest show ?thesis by simp
qed

theorem confidence_and_verdict_witness:
  "bullish five_of_six = 5 \<and> confidence five_of_six = 83
   \<and> final_verdict (confidence five_of_six) = BUY"
proof -
  have b: "bullish five_of_six = 5"
    by (simp add: bullish_def checks_of_def five_of_six_def)
  from confidence_and_verdict [of five_of_six]
  have "confidence five_of_six = 83" "final_verdict (confidence five_of_six) = BUY"
    unfolding b by auto
  with b show ?thesis by simp
qed

end
